theory Spec2Isabelle
  imports Main
begin

section \<open>Data model of the TypeScript plugin\<close>

text \<open>
  The plugin (\<^verbatim>\<open>packages/plugin-typescript/sources/index.ts\<close>) works on the package
  manager's identities, descriptors, manifests and workspaces. An identity is a scope
  (absent for an unscoped package) and a name; a descriptor extends an identity with a
  range string.
\<close>

record ident =
  scope :: "string option"
  name :: string

record descriptor = ident +
  range_str :: string

type_synonym identHash = "string option \<times> string"
type_synonym descriptorHash = "identHash \<times> string"

text \<open>
  Modelled from the spec: the hashing of identities and descriptors is part of the package
  manager's core, which is not among the sources. The spec makes an identity's hash stand for
  its scope and name (``uniquely identifying a package'') and a descriptor's hash for its
  identity and specifier, so a hash is modelled as the data it is computed from.
\<close>

definition identHash :: "'a ident_scheme \<Rightarrow> identHash" where
  "identHash i = (scope i, name i)"

definition descriptorHash :: "descriptor \<Rightarrow> descriptorHash" where
  "descriptorHash d = (identHash d, range_str d)"

definition makeIdent :: "string option \<Rightarrow> string \<Rightarrow> ident" where
  "makeIdent s n = \<lparr>scope = s, name = n\<rparr>"

definition makeDescriptor :: "ident \<Rightarrow> string \<Rightarrow> descriptor" where
  "makeDescriptor i r = \<lparr>scope = scope i, name = name i, range_str = r\<rparr>"

text \<open>
  Modelled from the spec: the manifest class is not among the sources. The spec gives a
  workspace one dependency collection per kind, ``regular, development, peer, optional'', each
  a mapping from an identity's hash to a dependency reference; \<^verbatim>\<open>Manifest.allDependencies\<close>
  lists the kinds.
\<close>

datatype allDependencies =
  Dependencies | DevDependencies | PeerDependencies | OptionalDependencies

definition allDependencies :: "allDependencies list" where
  "allDependencies = [Dependencies, DevDependencies, PeerDependencies, OptionalDependencies]"

type_synonym manifest = "allDependencies \<Rightarrow> identHash \<rightharpoonup> descriptor"

text \<open>
  A workspace: its root directory, its manifest, and the ordered collection
  \<^verbatim>\<open>workspace.dependencies\<close> that the reference synchronizer iterates.
\<close>

record workspace =
  cwd :: string
  manifest :: manifest
  dependencies :: "(identHash \<times> descriptor) list"

record project =
  workspaces :: "workspace list"

section \<open>Companion identities\<close>

text \<open>
  \<^verbatim>\<open>getTypesName\<close>: the test \<^verbatim>\<open>descriptor.scope ? ... : ...\<close> is false for a missing
  scope and for the empty string.
\<close>

definition getTypesName :: "descriptor \<Rightarrow> string" where
  "getTypesName d =
     (case scope d of
        None \<Rightarrow> name d
      | Some s \<Rightarrow> if s = [] then name d else s @ ''__'' @ name d)"

section \<open>The removal hook\<close>

text \<open>
  \<^verbatim>\<open>afterWorkspaceDependencyRemoval\<close> reads and writes the manifest of the workspace it is
  given and nothing else. The loop over \<^verbatim>\<open>Manifest.allDependencies\<close> is a fold whose body
  deletes the companion key from one collection when it is present.
\<close>

definition removeFrom :: "identHash \<Rightarrow> workspace \<Rightarrow> allDependencies \<Rightarrow> workspace" where
  "removeFrom h ws ty =
     (case manifest ws ty h of
        None \<Rightarrow> ws
      | Some current \<Rightarrow> ws\<lparr>manifest := (manifest ws)(ty := (manifest ws ty)(h := None))\<rparr>)"

definition afterWorkspaceDependencyRemoval :: "workspace \<Rightarrow> descriptor \<Rightarrow> workspace" where
  "afterWorkspaceDependencyRemoval ws d =
     (if scope d = Some ''types'' then ws
      else
        let typesName = getTypesName d;
            idt = makeIdent (Some ''types'') typesName
        in foldl (removeFrom (identHash idt)) ws allDependencies)"

section \<open>The addition hook\<close>

text \<open>
  The external collaborators of the addition hook, taken as parameters:
  \<^verbatim>\<open>hasDefinitelyTyped\<close> (from \<^verbatim>\<open>typescriptUtils\<close>), the resolver's
  \<^verbatim>\<open>getCandidates\<close> (\<open>None\<close> when the query is rejected, otherwise the candidates in
  order), the selector of \<^verbatim>\<open>structUtils.parseRange\<close>, and \<^verbatim>\<open>semver.validRange\<close>
  (as the truth value the code tests) and \<^verbatim>\<open>semver.coerce\<close> (\<open>None\<close> for \<^verbatim>\<open>null\<close>).
  Only the resolver has a failure in its contract; the others are functions that return.
\<close>

record package =
  reference :: string

record semver =
  major :: nat
  minor :: nat
  patch :: nat

record env =
  hasDefinitelyTyped :: "descriptor \<Rightarrow> bool"
  getCandidates :: "descriptor \<Rightarrow> package list option"
  parseRangeSelector :: "string \<Rightarrow> string"
  validRange :: "string \<Rightarrow> bool"
  coerce :: "string \<Rightarrow> semver option"

text \<open>
  What can reach the caller of a hook as an exception: a rejected resolver query that no
  \<^verbatim>\<open>try\<close> encloses, the \<^verbatim>\<open>TypeError\<close> of reading \<^verbatim>\<open>.reference\<close> of
  \<^verbatim>\<open>undefined\<close>, and (in the synchronizer) a failed write.
\<close>

datatype error = ResolverFailure | TypeError | WriteFailure

text \<open>
  The result of the addition hook: the resolver queries it made, in order, and either the
  error it raised or the project as the hook left it.
\<close>

record hook_result =
  queries :: "descriptor list"
  outcome :: "error + project"

text \<open>The decimal digits of a number, as the template literal prints \<^verbatim>\<open>semverRange.major\<close>.\<close>

definition digit :: "nat \<Rightarrow> char" where
  "digit n = ''0123456789'' ! n"

fun show_nat :: "nat \<Rightarrow> string" where
  "show_nat n = (if n < 10 then [digit n] else show_nat (n div 10) @ [digit (n mod 10)])"

declare show_nat.simps [simp del]

definition CARET :: string where
  "CARET = ''^''"

text \<open>
  \<^verbatim>\<open>miscUtils.mapAndFind\<close>: the first value of the callback that is not \<^verbatim>\<open>skip\<close>
  (\<open>None\<close> here), or \<^verbatim>\<open>undefined\<close> when there is none.
\<close>

fun mapAndFind :: "'a list \<Rightarrow> ('a \<Rightarrow> 'b option) \<Rightarrow> 'b option" where
  "mapAndFind [] cb = None"
| "mapAndFind (x # xs) cb = (case cb x of None \<Rightarrow> mapAndFind xs cb | Some v \<Rightarrow> Some v)"

text \<open>
  The callback of the propagation scan (lines 57 to 80): a workspace is skipped unless its
  regular or development collection holds the original identity with the descriptor hash of
  the original; then its entries for the companion identity are collected over all kinds, and
  it is skipped when there is none.
\<close>

definition atTypesDependenciesOf :: "identHash \<Rightarrow> workspace \<Rightarrow> (allDependencies \<times> descriptor) list" where
  "atTypesDependenciesOf h ws =
     List.map_filter (\<lambda>ty. map_option (Pair ty) (manifest ws ty h)) allDependencies"

definition scanWorkspace ::
  "descriptor \<Rightarrow> descriptor \<Rightarrow> workspace \<Rightarrow> (allDependencies \<times> descriptor) list option" where
  "scanWorkspace d atTypesDescriptor ws =
     (let regularDependencyHash = map_option descriptorHash (manifest ws Dependencies (identHash d));
          devDependencyHash = map_option descriptorHash (manifest ws DevDependencies (identHash d))
      in if regularDependencyHash \<noteq> Some (descriptorHash d) \<and> devDependencyHash \<noteq> Some (descriptorHash d)
         then None
         else
           let atTypesDependencies = atTypesDependenciesOf (identHash atTypesDescriptor) ws
           in if atTypesDependencies = [] then None else Some atTypesDependencies)"

text \<open>\<^verbatim>\<open>workspace.manifest[type].set(dep.identHash, dep)\<close>.\<close>

definition setDependency :: "workspace \<Rightarrow> allDependencies \<times> descriptor \<Rightarrow> workspace" where
  "setDependency ws td =
     ws\<lparr>manifest := (manifest ws)(fst td := (manifest ws (fst td))(identHash (snd td) \<mapsto> snd td))\<rparr>"

definition DEVELOPMENT :: allDependencies where
  "DEVELOPMENT = DevDependencies"

text \<open>
  The triggering workspace is the element \<open>w\<close> of \<open>project.workspaces\<close> (the source
  reaches the project as \<^verbatim>\<open>workspace.project\<close>); an in-place change of its manifest is
  an update of that element. The parameters \<^verbatim>\<open>dependencyTarget\<close> and
  \<^verbatim>\<open>strategies\<close> are never read by the source and are left out.
\<close>

definition updateWorkspace :: "project \<Rightarrow> nat \<Rightarrow> (workspace \<Rightarrow> workspace) \<Rightarrow> project" where
  "updateWorkspace p w f = p\<lparr>workspaces := (workspaces p)[w := f (workspaces p ! w)]\<rparr>"

text \<open>
  Lines 23 to 55 of \<^verbatim>\<open>afterWorkspaceDependencyAddition\<close>: the guards, the choice of the
  selector and the companion descriptor. The result is the list of resolver queries made and
  either the error raised (\<open>Inl\<close>), an early \<^verbatim>\<open>return\<close> (\<open>Inr None\<close>) or the descriptor
  \<^verbatim>\<open>atTypesDescriptor\<close> with which the rest of the hook runs. The query of line 46 stands
  outside any \<^verbatim>\<open>try\<close>, and line 47 reads \<^verbatim>\<open>originalCandidates[0].reference\<close>
  without a test of the length.
\<close>

definition resolveCompanion :: "env \<Rightarrow> descriptor \<Rightarrow> descriptor list \<times> (error + descriptor option)" where
  "resolveCompanion e d =
     (if scope d = Some ''types'' then ([], Inr None)
      else if \<not> hasDefinitelyTyped e d then ([], Inr None)
      else
        let typesName = getTypesName d;
            range0 = parseRangeSelector e (range_str d);
            isTag = \<not> validRange e range0;
            asked = (if isTag then [d] else [])
        in case (if isTag then
                   (case getCandidates e d of
                      None \<Rightarrow> Inl ResolverFailure
                    | Some [] \<Rightarrow> Inl TypeError
                    | Some (c # cs) \<Rightarrow> Inr (parseRangeSelector e (reference c)))
                 else Inr range0) of
             Inl err \<Rightarrow> (asked, Inl err)
           | Inr rng \<Rightarrow>
               (case coerce e rng of
                  None \<Rightarrow> (asked, Inr None)
                | Some semverRange \<Rightarrow>
                    (let coercedRange = CARET @ show_nat (major semverRange);
                         atTypesDescriptor =
                           makeDescriptor (makeIdent (Some ''types'') typesName) coercedRange
                     in (asked, Inr (Some atTypesDescriptor)))))"

text \<open>
  Lines 57 to 98: the propagation scan, then either the copy of the entries found or the
  probe of the fresh companion descriptor (inside \<^verbatim>\<open>try\<close>, with the test of the length)
  and the insertion into the development collection.
\<close>

definition reconcileCompanion ::
  "env \<Rightarrow> project \<Rightarrow> nat \<Rightarrow> descriptor \<Rightarrow> descriptor list \<Rightarrow> descriptor \<Rightarrow> hook_result" where
  "reconcileCompanion e p w d asked atTypesDescriptor =
     (case mapAndFind (workspaces p) (scanWorkspace d atTypesDescriptor) of
        Some projectSuggestions \<Rightarrow>
          \<lparr>queries = asked,
           outcome = Inr (updateWorkspace p w (\<lambda>ws. foldl setDependency ws projectSuggestions))\<rparr>
      | None \<Rightarrow>
          (case getCandidates e atTypesDescriptor of
             None \<Rightarrow> \<lparr>queries = asked @ [atTypesDescriptor], outcome = Inr p\<rparr>
           | Some [] \<Rightarrow> \<lparr>queries = asked @ [atTypesDescriptor], outcome = Inr p\<rparr>
           | Some (c # cs) \<Rightarrow>
               \<lparr>queries = asked @ [atTypesDescriptor],
                outcome = Inr (updateWorkspace p w
                  (\<lambda>ws. setDependency ws (DEVELOPMENT, atTypesDescriptor)))\<rparr>))"

definition afterWorkspaceDependencyAddition ::
  "env \<Rightarrow> project \<Rightarrow> nat \<Rightarrow> descriptor \<Rightarrow> hook_result" where
  "afterWorkspaceDependencyAddition e p w d =
     (case resolveCompanion e d of
        (asked, Inl err) \<Rightarrow> \<lparr>queries = asked, outcome = Inl err\<rparr>
      | (asked, Inr None) \<Rightarrow> \<lparr>queries = asked, outcome = Inr p\<rparr>
      | (asked, Inr (Some atTypesDescriptor)) \<Rightarrow>
          reconcileCompanion e p w d asked atTypesDescriptor)"

text \<open>
  The project as a run of the hook leaves it: the hook changes a manifest only in its last
  step, so a run that raises has changed nothing.
\<close>

definition projectAfter :: "project \<Rightarrow> hook_result \<Rightarrow> project" where
  "projectAfter p r = (case outcome r of Inl err \<Rightarrow> p | Inr p' \<Rightarrow> p')"

text \<open>
  The two conditions of the propagation scan, as the claims name them: the workspace depends
  on the original package by the identical descriptor hash, in its regular or development
  collection; the workspace holds an entry for the companion identity, in some collection.
\<close>

definition dependsOnOriginal :: "descriptor \<Rightarrow> workspace \<Rightarrow> bool" where
  "dependsOnOriginal d ws =
     (map_option descriptorHash (manifest ws Dependencies (identHash d)) = Some (descriptorHash d)
      \<or> map_option descriptorHash (manifest ws DevDependencies (identHash d)) = Some (descriptorHash d))"

definition holdsCompanion :: "identHash \<Rightarrow> workspace \<Rightarrow> bool" where
  "holdsCompanion h ws = list_ex (\<lambda>ty. manifest ws ty h \<noteq> None) allDependencies"

text \<open>
  The invariant of a manifest: every collection is keyed by the identity hash of the
  descriptor it holds.
\<close>

definition keyedByIdent :: "workspace \<Rightarrow> bool" where
  "keyedByIdent ws =
     list_all (\<lambda>ty. \<forall>h dep. manifest ws ty h = Some dep \<longrightarrow> identHash dep = h) allDependencies"

section \<open>The reference synchronizer\<close>

text \<open>
  The configuration document as the source types it,
  \<^verbatim>\<open>{references?: Array<{path: string}>}\<close>, with the document's other members kept as
  they are (key and text). A file either parses to such a document or does not; a path with no
  file is absent from the file system.
\<close>

record ref_entry =
  path :: string

record tsconfig =
  references :: "ref_entry list option"
  other :: "(string \<times> string) list"

datatype file_content = Unparsable | Json tsconfig

type_synonym fs = "string \<rightharpoonup> file_content"

text \<open>
  The state of a synchronization pass: the file system and the paths written so far, in order.
\<close>

record sync_state =
  files :: fs
  written :: "string list"

text \<open>
  The external collaborators of the synchronizer, taken as parameters: the descriptor
  utilities, the project's lookup of a workspace by identity (the workspace found is given by
  its position in \<open>project.workspaces\<close>, which stands for the object's identity),
  \<^verbatim>\<open>workspace.accepts\<close>, the path functions, and whether a write to a path succeeds.
\<close>

record sync_env =
  isVirtualDescriptor :: "descriptor \<Rightarrow> bool"
  devirtualizeDescriptor :: "descriptor \<Rightarrow> descriptor"
  tryWorkspaceByIdent :: "identHash \<Rightarrow> nat option"
  accepts :: "nat \<Rightarrow> string \<Rightarrow> bool"
  relative :: "string \<Rightarrow> string \<Rightarrow> string"
  join :: "string \<Rightarrow> string \<Rightarrow> string"
  writable :: "string \<Rightarrow> bool"

definition tryWorkspaceByDescriptor :: "sync_env \<Rightarrow> descriptor \<Rightarrow> nat option" where
  "tryWorkspaceByDescriptor se d0 =
     (let d = (if isVirtualDescriptor se d0 then devirtualizeDescriptor se d0 else d0)
      in case tryWorkspaceByIdent se (identHash d) of
           None \<Rightarrow> None
         | Some j \<Rightarrow> if \<not> accepts se j (range_str d) then None else Some j)"

text \<open>Lines 150 to 156: \<^verbatim>\<open>miscUtils.mapAndFilter\<close> over \<^verbatim>\<open>workspace.dependencies\<close>.\<close>

definition referencedWorkspaces :: "sync_env \<Rightarrow> project \<Rightarrow> nat \<Rightarrow> string list" where
  "referencedWorkspaces se p i =
     List.map_filter
       (\<lambda>(h, d). case tryWorkspaceByDescriptor se d of
                    None \<Rightarrow> None
                  | Some j \<Rightarrow>
                      if j = i then None
                      else Some (relative se (cwd (workspaces p ! i)) (cwd (workspaces p ! j))))
       (dependencies (workspaces p ! i))"

definition tsconfigPath :: "sync_env \<Rightarrow> project \<Rightarrow> nat \<Rightarrow> string" where
  "tsconfigPath se p i = join se (cwd (workspaces p ! i)) ''tsconfig.json''"

text \<open>
  Lines 158 to 165: the document read and the flag \<^verbatim>\<open>configChanged\<close>; a failed read
  leaves the empty document and sets the flag.
\<close>

definition readTsconfig :: "fs \<Rightarrow> string \<Rightarrow> tsconfig \<times> bool" where
  "readTsconfig fsys f =
     (case fsys f of
        Some (Json t) \<Rightarrow> (t, False)
      | Some Unparsable \<Rightarrow> (\<lparr>references = None, other = []\<rparr>, True)
      | None \<Rightarrow> (\<lparr>references = None, other = []\<rparr>, True))"

definition oldReferences :: "tsconfig \<Rightarrow> string set" where
  "oldReferences t = set (case references t of None \<Rightarrow> [] | Some refs \<Rightarrow> map path refs)"

text \<open>Lines 167 to 183: the new reference list and the flag.\<close>

definition updateReferences :: "string list \<Rightarrow> tsconfig \<times> bool \<Rightarrow> tsconfig \<times> bool" where
  "updateReferences refd tc =
     (if refd = [] then
        (if references (fst tc) \<noteq> None then ((fst tc)\<lparr>references := None\<rparr>, True) else tc)
      else
        ((fst tc)\<lparr>references := Some (map (\<lambda>relativePath. \<lparr>path = relativePath\<rparr>) refd)\<rparr>,
         snd tc \<or> list_ex (\<lambda>relativePath. relativePath \<notin> oldReferences (fst tc)) refd))"

text \<open>One iteration of the loop of \<^verbatim>\<open>afterAllInstalled\<close>, for the workspace at \<open>i\<close>.\<close>

definition syncWorkspace :: "sync_env \<Rightarrow> project \<Rightarrow> sync_state \<Rightarrow> nat \<Rightarrow> error + sync_state" where
  "syncWorkspace se p st i =
     (let f = tsconfigPath se p i;
          tc = updateReferences (referencedWorkspaces se p i) (readTsconfig (files st) f)
      in if snd tc then
           (if writable se f
            then Inr \<lparr>files = (files st)(f \<mapsto> Json (fst tc)), written = written st @ [f]\<rparr>
            else Inl WriteFailure)
         else Inr st)"

fun syncAll :: "sync_env \<Rightarrow> project \<Rightarrow> nat list \<Rightarrow> sync_state \<Rightarrow> error + sync_state" where
  "syncAll se p [] st = Inr st"
| "syncAll se p (i # js) st =
     (case syncWorkspace se p st i of
        Inl err \<Rightarrow> Inl err
      | Inr st' \<Rightarrow> syncAll se p js st')"

definition afterAllInstalled :: "sync_env \<Rightarrow> project \<Rightarrow> fs \<Rightarrow> error + sync_state" where
  "afterAllInstalled se p fsys =
     syncAll se p [0..<length (workspaces p)] \<lparr>files = fsys, written = []\<rparr>"

text \<open>
  Whether the iteration for workspace \<open>i\<close> persists the document: it attempts a write, which
  either fails or extends the list of written paths.
\<close>

definition persisted :: "sync_env \<Rightarrow> project \<Rightarrow> sync_state \<Rightarrow> nat \<Rightarrow> bool" where
  "persisted se p st i =
     (case syncWorkspace se p st i of
        Inl err \<Rightarrow> True
      | Inr st' \<Rightarrow> written st' \<noteq> written st)"

section \<open>Example inputs\<close>

text \<open>
  A resolver and a project on which the theorems below are exercised. The package
  \<open>foo\<close> has a companion on the registry; the tag \<open>latest\<close> of \<open>foo\<close> resolves
  to version 4.2.1.
\<close>

definition demo_env :: env where
  "demo_env =
     \<lparr>hasDefinitelyTyped = (\<lambda>d. True),
      getCandidates = (\<lambda>d. if name d = ''foo'' \<and> scope d = Some ''types''
                            then Some [\<lparr>reference = ''npm:2.0.5''\<rparr>]
                            else if name d = ''foo'' then Some [\<lparr>reference = ''npm:4.2.1''\<rparr>]
                            else if name d = ''baz'' then Some []
                            else None),
      parseRangeSelector = (\<lambda>s. if take 4 s = ''npm:'' then drop 4 s else s),
      validRange = (\<lambda>s. s \<noteq> ''latest''),
      coerce = (\<lambda>s. if s = ''^2.0.0'' then Some \<lparr>major = 2, minor = 0, patch = 0\<rparr>
                     else if s = ''4.2.1'' then Some \<lparr>major = 4, minor = 2, patch = 1\<rparr>
                     else None)\<rparr>"

definition foo2 :: descriptor where
  "foo2 = \<lparr>scope = None, name = ''foo'', range_str = ''^2.0.0''\<rparr>"

definition fooLatest :: descriptor where
  "fooLatest = \<lparr>scope = None, name = ''foo'', range_str = ''latest''\<rparr>"

definition typesFoo15 :: descriptor where
  "typesFoo15 = \<lparr>scope = Some ''types'', name = ''foo'', range_str = ''^1.5''\<rparr>"

definition typesFoo1 :: descriptor where
  "typesFoo1 = \<lparr>scope = Some ''types'', name = ''foo'', range_str = ''^1.0''\<rparr>"

definition typesFoo2 :: descriptor where
  "typesFoo2 = \<lparr>scope = Some ''types'', name = ''foo'', range_str = ''^2''\<rparr>"

definition fooOnly :: manifest where
  "fooOnly = (\<lambda>ty. Map.empty)(Dependencies := [(None, ''foo'') \<mapsto> foo2])"

definition wsNew :: workspace where
  "wsNew = \<lparr>cwd = ''/repo/new'', manifest = fooOnly, dependencies = []\<rparr>"

definition wsPlain :: workspace where
  "wsPlain = \<lparr>cwd = ''/repo/plain'', manifest = fooOnly, dependencies = []\<rparr>"

definition wsTyped :: workspace where
  "wsTyped =
     \<lparr>cwd = ''/repo/typed'',
      manifest = fooOnly(DevDependencies := [(Some ''types'', ''foo'') \<mapsto> typesFoo15]),
      dependencies = []\<rparr>"

definition wsPeer :: workspace where
  "wsPeer =
     \<lparr>cwd = ''/repo/peer'',
      manifest = fooOnly(PeerDependencies := [(Some ''types'', ''foo'') \<mapsto> typesFoo1]),
      dependencies = []\<rparr>"

definition wsBoth :: workspace where
  "wsBoth =
     \<lparr>cwd = ''/repo/both'',
      manifest = fooOnly(DevDependencies := [(Some ''types'', ''foo'') \<mapsto> typesFoo15],
                         PeerDependencies := [(Some ''types'', ''foo'') \<mapsto> typesFoo1]),
      dependencies = []\<rparr>"

definition siblingProject :: project where
  "siblingProject = \<lparr>workspaces = [wsNew, wsPlain, wsTyped, wsPeer]\<rparr>"

definition freshProject :: project where
  "freshProject = \<lparr>workspaces = [wsNew, wsPlain]\<rparr>"

definition pairProject :: project where
  "pairProject = \<lparr>workspaces = [wsNew, wsTyped]\<rparr>"

text \<open>
  Two descriptors whose range is a tag: the resolver rejects the query for \<open>bar\<close> and
  answers the query for \<open>baz\<close> with no candidate.
\<close>

definition barLatest :: descriptor where
  "barLatest = \<lparr>scope = None, name = ''bar'', range_str = ''latest''\<rparr>"

definition bazLatest :: descriptor where
  "bazLatest = \<lparr>scope = None, name = ''baz'', range_str = ''latest''\<rparr>"

text \<open>
  A project of two workspaces for the synchronizer: \<open>app\<close> depends on the local workspace
  \<open>lib\<close> and on an external package, \<open>lib\<close> on nothing local.
\<close>

definition demo_sync_env :: sync_env where
  "demo_sync_env =
     \<lparr>isVirtualDescriptor = (\<lambda>d. False),
      devirtualizeDescriptor = (\<lambda>d. d),
      tryWorkspaceByIdent = (\<lambda>h. if h = (None, ''app'') then Some 0
                                  else if h = (None, ''lib'') then Some 1
                                  else None),
      accepts = (\<lambda>j r. True),
      relative = (\<lambda>from to. ''..'' @ drop 5 to),
      join = (\<lambda>dir f. dir @ ''/'' @ f),
      writable = (\<lambda>f. True)\<rparr>"

definition wsApp :: workspace where
  "wsApp =
     \<lparr>cwd = ''/repo/app'', manifest = (\<lambda>ty. Map.empty),
      dependencies =
        [((None, ''lib''), \<lparr>scope = None, name = ''lib'', range_str = ''workspace:*''\<rparr>),
         ((None, ''foo''), foo2)]\<rparr>"

definition wsLib :: workspace where
  "wsLib = \<lparr>cwd = ''/repo/lib'', manifest = (\<lambda>ty. Map.empty), dependencies = []\<rparr>"

definition syncProject :: project where
  "syncProject = \<lparr>workspaces = [wsApp, wsLib]\<rparr>"

text \<open>
  Three file systems: the document of \<open>lib\<close> declares an empty reference list; the
  document of \<open>app\<close> lists \<open>../lib\<close> and a stale \<open>../old\<close>; no document exists.
\<close>

definition emptyListFs :: fs where
  "emptyListFs = [''/repo/lib/tsconfig.json'' \<mapsto> Json \<lparr>references = Some [], other = []\<rparr>]"

definition staleFs :: fs where
  "staleFs =
     [''/repo/app/tsconfig.json'' \<mapsto>
        Json \<lparr>references = Some [\<lparr>path = ''../lib''\<rparr>, \<lparr>path = ''../old''\<rparr>],
              other = [(''compilerOptions'', ''{}'')]\<rparr>]"

definition noFs :: fs where
  "noFs = Map.empty"

section \<open>Facts about the hooks\<close>

lemma removeFrom_manifest:
  "manifest (removeFrom h ws ty) = (manifest ws)(ty := (manifest ws ty)(h := None))"
  by (auto simp: removeFrom_def fun_eq_iff split: option.splits)

lemma removeFrom_cwd: "cwd (removeFrom h ws ty) = cwd ws"
  by (simp add: removeFrom_def split: option.splits)

lemma foldl_removeFrom_manifest:
  "manifest (foldl (removeFrom h) ws tys) =
     (\<lambda>ty. if ty \<in> set tys then (manifest ws ty)(h := None) else manifest ws ty)"
proof (induction tys arbitrary: ws)
  case Nil
  then show ?case by simp
next
  case (Cons t tys)
  show ?case
    by (simp add: Cons.IH removeFrom_manifest fun_eq_iff)
qed

lemma foldl_removeFrom_cwd: "cwd (foldl (removeFrom h) ws tys) = cwd ws"
  by (induction tys arbitrary: ws) (simp_all add: removeFrom_cwd)

lemma removeFrom_dependencies: "dependencies (removeFrom h ws ty) = dependencies ws"
  by (simp add: removeFrom_def split: option.splits)

lemma foldl_removeFrom_dependencies: "dependencies (foldl (removeFrom h) ws tys) = dependencies ws"
  by (induction tys arbitrary: ws) (simp_all add: removeFrom_dependencies)

lemma set_allDependencies: "set allDependencies = UNIV"
proof -
  have "ty \<in> set allDependencies" for ty
    by (cases ty) (simp_all add: allDependencies_def)
  then show ?thesis by auto
qed

lemma resolveCompanion_types: "scope d = Some ''types'' \<Longrightarrow> resolveCompanion e d = ([], Inr None)"
  by (simp add: resolveCompanion_def)

lemma mapAndFind_None_iff: "mapAndFind xs cb = None \<longleftrightarrow> (\<forall>x\<in>set xs. cb x = None)"
  by (induction xs) (auto split: option.splits)

lemma mapAndFind_first:
  "\<forall>y\<in>set pre. cb y = None \<Longrightarrow> cb x = Some v \<Longrightarrow> mapAndFind (pre @ x # post) cb = Some v"
  by (induction pre) auto

lemma mapAndFind_Some_split:
  "mapAndFind xs cb = Some v \<Longrightarrow>
     \<exists>pre x post. xs = pre @ x # post \<and> (\<forall>y\<in>set pre. cb y = None) \<and> cb x = Some v"
proof (induction xs)
  case Nil
  then show ?case by simp
next
  case (Cons a xs)
  show ?case
  proof (cases "cb a")
    case None
    with Cons.prems have "mapAndFind xs cb = Some v" by simp
    from Cons.IH[OF this] obtain pre x post
      where "xs = pre @ x # post" "\<forall>y\<in>set pre. cb y = None" "cb x = Some v" by blast
    with None have "a # xs = (a # pre) @ x # post \<and> (\<forall>y\<in>set (a # pre). cb y = None) \<and> cb x = Some v"
      by simp
    then show ?thesis by blast
  next
    case (Some u)
    with Cons.prems have "u = v" by simp
    with Some have "a # xs = [] @ a # xs \<and> (\<forall>y\<in>set []. cb y = None) \<and> cb a = Some v" by simp
    then show ?thesis by blast
  qed
qed

lemma atTypesDependenciesOf_nil_iff:
  "atTypesDependenciesOf h ws = [] \<longleftrightarrow> \<not> holdsCompanion h ws"
  by (simp add: atTypesDependenciesOf_def holdsCompanion_def allDependencies_def
      List.map_filter_simps split: option.splits)

lemma scanWorkspace_None_iff:
  "scanWorkspace d a ws = None \<longleftrightarrow> \<not> (dependsOnOriginal d ws \<and> holdsCompanion (identHash a) ws)"
  by (auto simp: scanWorkspace_def dependsOnOriginal_def Let_def atTypesDependenciesOf_nil_iff)

lemma scanWorkspace_Some:
  "scanWorkspace d a ws = Some xs \<Longrightarrow> xs = atTypesDependenciesOf (identHash a) ws"
  by (auto simp: scanWorkspace_def Let_def split: if_splits)

lemma setDependency_manifest:
  "manifest (setDependency ws (ty, dep)) =
     (manifest ws)(ty := (manifest ws ty)(identHash dep \<mapsto> dep))"
  by (simp add: setDependency_def)

lemma foldl_setDependency_manifest:
  "manifest (foldl setDependency ws (atTypesDependenciesOf h src)) =
     (\<lambda>ty. case manifest src ty h of
              None \<Rightarrow> manifest ws ty
            | Some dep \<Rightarrow> (manifest ws ty)(identHash dep \<mapsto> dep))"
  apply (rule ext)
  subgoal for ty
    by (cases ty)
      (simp_all add: atTypesDependenciesOf_def allDependencies_def List.map_filter_simps
        setDependency_def split: option.splits)
  done

lemma hook_reconcile:
  "resolveCompanion e d = (asked, Inr (Some a)) \<Longrightarrow>
     afterWorkspaceDependencyAddition e p w d = reconcileCompanion e p w d asked a"
  by (simp add: afterWorkspaceDependencyAddition_def)

lemma resolveCompanion_cases:
  "resolveCompanion e d =
     (if scope d = Some ''types'' \<or> \<not> hasDefinitelyTyped e d then ([], Inr None)
      else if validRange e (parseRangeSelector e (range_str d)) then
        ([], Inr (map_option
                    (\<lambda>v. \<lparr>scope = Some ''types'', name = getTypesName d,
                           range_str = ''^'' @ show_nat (major v)\<rparr>)
                    (coerce e (parseRangeSelector e (range_str d)))))
      else
        (case getCandidates e d of
           None \<Rightarrow> ([d], Inl ResolverFailure)
         | Some [] \<Rightarrow> ([d], Inl TypeError)
         | Some (c # cs) \<Rightarrow>
             ([d], Inr (map_option
                    (\<lambda>v. \<lparr>scope = Some ''types'', name = getTypesName d,
                           range_str = ''^'' @ show_nat (major v)\<rparr>)
                    (coerce e (parseRangeSelector e (reference c)))))))"
  unfolding resolveCompanion_def Let_def makeDescriptor_def makeIdent_def CARET_def
  by (simp split: option.split list.split)

lemma resolveCompanion_Some:
  assumes "resolveCompanion e d = (asked, Inr (Some a))"
  shows "scope d \<noteq> Some ''types''" and "scope a = Some ''types''"
    and "name a = getTypesName d" and "set asked \<subseteq> {d}"
  using assms
  by (auto simp: resolveCompanion_cases split: if_splits option.splits list.splits)

lemma show_nat_digit: "n < 10 \<Longrightarrow> show_nat n = [digit n]"
  by (simp add: show_nat.simps)

lemma reconcile_propagates:
  assumes "workspaces p = pre @ src # post"
    and "\<forall>ws\<in>set pre. \<not> (dependsOnOriginal d ws \<and> holdsCompanion (identHash a) ws)"
    and "dependsOnOriginal d src" and "holdsCompanion (identHash a) src"
  shows "reconcileCompanion e p w d asked a =
    \<lparr>queries = asked,
     outcome = Inr (updateWorkspace p w
       (\<lambda>ws. foldl setDependency ws (atTypesDependenciesOf (identHash a) src)))\<rparr>"
proof -
  have pre: "\<forall>ws\<in>set pre. scanWorkspace d a ws = None"
    using assms(2) by (simp add: scanWorkspace_None_iff)
  from assms(3,4) obtain xs where xs: "scanWorkspace d a src = Some xs"
    using scanWorkspace_None_iff[of d a src] by (cases "scanWorkspace d a src") auto
  then have "xs = atTypesDependenciesOf (identHash a) src" by (rule scanWorkspace_Some)
  with xs pre have "mapAndFind (workspaces p) (scanWorkspace d a) =
      Some (atTypesDependenciesOf (identHash a) src)"
    by (simp add: assms(1) mapAndFind_first)
  then show ?thesis by (simp add: reconcileCompanion_def)
qed

lemma reconcile_probes:
  assumes "\<forall>ws\<in>set (workspaces p). \<not> (dependsOnOriginal d ws \<and> holdsCompanion (identHash a) ws)"
  shows "reconcileCompanion e p w d asked a =
    \<lparr>queries = asked @ [a],
     outcome = (case getCandidates e a of
                  Some (c # cs) \<Rightarrow> Inr (updateWorkspace p w (\<lambda>ws. setDependency ws (DEVELOPMENT, a)))
                | _ \<Rightarrow> Inr p)\<rparr>"
proof -
  have "mapAndFind (workspaces p) (scanWorkspace d a) = None"
    using assms by (simp add: mapAndFind_None_iff scanWorkspace_None_iff)
  then show ?thesis
    by (simp add: reconcileCompanion_def split: option.splits list.splits)
qed

lemma first_qualifying:
  assumes "\<exists>x\<in>set xs. P x"
  shows "\<exists>pre x post. xs = pre @ x # post \<and> (\<forall>y\<in>set pre. \<not> P y) \<and> P x"
proof -
  from split_list_first_prop[OF assms] obtain ys x zs
    where "xs = ys @ x # zs" "P x" "\<forall>y\<in>set ys. \<not> P y" by auto
  then have "xs = ys @ x # zs \<and> (\<forall>y\<in>set ys. \<not> P y) \<and> P x" by simp
  then show ?thesis by (intro exI)
qed

section \<open>The hooks and the synchronizer verified\<close>

subsection \<open>Removal, companion identities and the companion range\<close>

text \<open>
  Claim C6. For every workspace and every original descriptor that is not in the companion
  scope, the removal hook deletes the entry keyed by the derived companion identity from each
  of the four dependency collections of that workspace and leaves every other entry, and the
  rest of the workspace, as it was. The hook is a function of the workspace and the descriptor
  alone: it reads no other workspace and no resolver.
\<close>

theorem removal_sheds_companion:
  assumes "scope d \<noteq> Some ''types''"
  shows "(\<forall>ty. manifest (afterWorkspaceDependencyRemoval ws d) ty =
            (manifest ws ty)(identHash (makeIdent (Some ''types'') (getTypesName d)) := None))
         \<and> cwd (afterWorkspaceDependencyRemoval ws d) = cwd ws
         \<and> dependencies (afterWorkspaceDependencyRemoval ws d) = dependencies ws"
  using assms
  by (simp add: afterWorkspaceDependencyRemoval_def foldl_removeFrom_manifest
      foldl_removeFrom_cwd foldl_removeFrom_dependencies set_allDependencies)

theorem removal_sheds_companion_witness:
  "scope foo2 \<noteq> Some ''types''
   \<and> manifest (afterWorkspaceDependencyRemoval wsBoth foo2) DevDependencies (Some ''types'', ''foo'') = None
   \<and> manifest (afterWorkspaceDependencyRemoval wsBoth foo2) PeerDependencies (Some ''types'', ''foo'') = None
   \<and> manifest (afterWorkspaceDependencyRemoval wsBoth foo2) Dependencies (None, ''foo'') = Some foo2"
proof -
  have h: "scope foo2 \<noteq> Some ''types''" by (simp add: foo2_def)
  have g: "getTypesName foo2 = ''foo''" by (simp add: getTypesName_def foo2_def)
  show ?thesis
    using h removal_sheds_companion [OF h, of wsBoth]
    by (simp add: g identHash_def makeIdent_def wsBoth_def fooOnly_def)
qed

text \<open>
  Claim C8. The companion name of a scoped identity \<open>@scope/name\<close> is the flat name
  \<open>scope__name\<close>, and that of an unscoped identity is its name; the companion descriptor
  that the addition hook forms has the scope \<open>types\<close> and that name. Both hooks do nothing
  for a descriptor whose scope is \<open>types\<close>: no query, no change. So they do nothing for a
  descriptor of the companion identity itself, and the derivation is never applied twice.
\<close>

theorem companion_identity_fixed_point:
  "(s \<noteq> [] \<longrightarrow> getTypesName \<lparr>scope = Some s, name = n, range_str = r\<rparr> = s @ ''__'' @ n)
   \<and> getTypesName \<lparr>scope = None, name = n, range_str = r\<rparr> = n
   \<and> (resolveCompanion e d = (asked, Inr (Some a)) \<longrightarrow>
        identHash a = (Some ''types'', getTypesName d))
   \<and> (scope c = Some ''types'' \<longrightarrow>
        afterWorkspaceDependencyAddition e p w c = \<lparr>queries = [], outcome = Inr p\<rparr>
        \<and> afterWorkspaceDependencyRemoval ws c = ws)
   \<and> afterWorkspaceDependencyAddition e p w
         (makeDescriptor (makeIdent (Some ''types'') (getTypesName d)) r') =
       \<lparr>queries = [], outcome = Inr p\<rparr>
   \<and> afterWorkspaceDependencyRemoval ws
         (makeDescriptor (makeIdent (Some ''types'') (getTypesName d)) r') = ws"
proof -
  have a: "resolveCompanion e d = (asked, Inr (Some a)) \<longrightarrow>
        identHash a = (Some ''types'', getTypesName d)"
    by (auto simp: identHash_def dest: resolveCompanion_Some)
  have b: "afterWorkspaceDependencyAddition e p w x = \<lparr>queries = [], outcome = Inr p\<rparr>
        \<and> afterWorkspaceDependencyRemoval ws x = ws" if "scope x = Some ''types''" for x
    using that
    by (simp add: afterWorkspaceDependencyAddition_def resolveCompanion_types
        afterWorkspaceDependencyRemoval_def)
  have c: "scope (makeDescriptor (makeIdent (Some ''types'') (getTypesName d)) r') = Some ''types''"
    by (simp add: makeDescriptor_def makeIdent_def)
  show ?thesis
    using a b[of c] b[OF c] by (simp add: getTypesName_def)
qed

theorem companion_identity_fixed_point_witness:
  "getTypesName \<lparr>scope = Some ''babel'', name = ''core'', range_str = ''^7.0.0''\<rparr> = ''babel__core''
   \<and> resolveCompanion demo_env foo2 = ([], Inr (Some typesFoo2))
   \<and> identHash typesFoo2 = (Some ''types'', ''foo'')
   \<and> afterWorkspaceDependencyAddition demo_env siblingProject 0 typesFoo2 =
       \<lparr>queries = [], outcome = Inr siblingProject\<rparr>
   \<and> afterWorkspaceDependencyRemoval wsTyped typesFoo2 = wsTyped"
proof -
  have r: "resolveCompanion demo_env foo2 = ([], Inr (Some typesFoo2))"
    by (simp add: resolveCompanion_cases demo_env_def foo2_def typesFoo2_def getTypesName_def
        show_nat_digit digit_def)
  have s: "scope typesFoo2 = Some ''types''" by (simp add: typesFoo2_def)
  have g: "getTypesName foo2 = ''foo''" by (simp add: getTypesName_def foo2_def)
  show ?thesis
    using r s companion_identity_fixed_point
      [where s = "''babel''" and n = "''core''" and r = "''^7.0.0''" and e = demo_env
        and d = foo2 and asked = "[]" and a = typesFoo2 and c = typesFoo2
        and p = siblingProject and w = 0 and ws = wsTyped]
    by (simp add: g)
qed

text \<open>
  Claim C5. For an original descriptor that passes the guards of the addition hook, the selector
  of its range is used when it is a valid semver range, and otherwise the selector of the
  reference of the resolver's first candidate for the original descriptor. If the chosen
  selector cannot be coerced to a version, the hook returns without error and the project is
  unchanged. Otherwise the rest of the hook runs with the companion descriptor whose range is
  the caret followed by the major component of the coerced version (for the version 4.2.1 the
  range \<open>^4\<close>).
\<close>

theorem companion_range_is_caret_major:
  assumes "scope d \<noteq> Some ''types''" and "hasDefinitelyTyped e d"
    and "validRange e (parseRangeSelector e (range_str d))
           \<and> sel = parseRangeSelector e (range_str d) \<and> asked = []
         \<or> \<not> validRange e (parseRangeSelector e (range_str d))
           \<and> getCandidates e d = Some (c # cs)
           \<and> sel = parseRangeSelector e (reference c) \<and> asked = [d]"
  shows "afterWorkspaceDependencyAddition e p w d =
     (case coerce e sel of
        None \<Rightarrow> \<lparr>queries = asked, outcome = Inr p\<rparr>
      | Some v \<Rightarrow>
          reconcileCompanion e p w d asked
            \<lparr>scope = Some ''types'', name = getTypesName d,
             range_str = ''^'' @ show_nat (major v)\<rparr>)"
  using assms
  by (auto simp: afterWorkspaceDependencyAddition_def resolveCompanion_cases
      split: option.splits)

theorem companion_range_is_caret_major_witness:
  "scope fooLatest \<noteq> Some ''types'' \<and> hasDefinitelyTyped demo_env fooLatest
   \<and> \<not> validRange demo_env (parseRangeSelector demo_env (range_str fooLatest))
   \<and> getCandidates demo_env fooLatest = Some [\<lparr>reference = ''npm:4.2.1''\<rparr>]
   \<and> parseRangeSelector demo_env ''npm:4.2.1'' = ''4.2.1''
   \<and> coerce demo_env ''4.2.1'' = Some \<lparr>major = 4, minor = 2, patch = 1\<rparr>
   \<and> afterWorkspaceDependencyAddition demo_env freshProject 0 fooLatest =
       reconcileCompanion demo_env freshProject 0 fooLatest [fooLatest]
         \<lparr>scope = Some ''types'', name = ''foo'', range_str = ''^4''\<rparr>"
proof -
  have h1: "scope fooLatest \<noteq> Some ''types''" by (simp add: fooLatest_def)
  have h2: "hasDefinitelyTyped demo_env fooLatest" by (simp add: demo_env_def)
  have h3: "\<not> validRange demo_env (parseRangeSelector demo_env (range_str fooLatest))"
    by (simp add: demo_env_def fooLatest_def)
  have h4: "getCandidates demo_env fooLatest = Some (\<lparr>reference = ''npm:4.2.1''\<rparr> # [])"
    by (simp add: demo_env_def fooLatest_def)
  have h5: "parseRangeSelector demo_env ''npm:4.2.1'' = ''4.2.1''" by (simp add: demo_env_def)
  have h6: "coerce demo_env ''4.2.1'' = Some \<lparr>major = 4, minor = 2, patch = 1\<rparr>"
    by (simp add: demo_env_def)
  have g: "getTypesName fooLatest = ''foo''" by (simp add: getTypesName_def fooLatest_def)
  have "afterWorkspaceDependencyAddition demo_env freshProject 0 fooLatest =
     (case coerce demo_env ''4.2.1'' of
        None \<Rightarrow> \<lparr>queries = [fooLatest], outcome = Inr freshProject\<rparr>
      | Some v \<Rightarrow>
          reconcileCompanion demo_env freshProject 0 fooLatest [fooLatest]
            \<lparr>scope = Some ''types'', name = getTypesName fooLatest,
             range_str = ''^'' @ show_nat (major v)\<rparr>)"
    using companion_range_is_caret_major [OF h1 h2, of "''4.2.1''" "[fooLatest]"
        "\<lparr>reference = ''npm:4.2.1''\<rparr>" "[]" freshProject 0] h3 h4 h5
    by simp
  then show ?thesis
    using h1 h2 h3 h4 h5 h6 by (simp add: g show_nat_digit digit_def)
qed

lemma setDependency_cwd: "cwd (setDependency ws td) = cwd ws"
  by (simp add: setDependency_def)

lemma setDependency_dependencies: "dependencies (setDependency ws td) = dependencies ws"
  by (simp add: setDependency_def)

lemma foldl_setDependency_cwd: "cwd (foldl setDependency ws tds) = cwd ws"
  by (induction tds arbitrary: ws) (simp_all add: setDependency_cwd)

lemma foldl_setDependency_dependencies:
  "dependencies (foldl setDependency ws tds) = dependencies ws"
  by (induction tds arbitrary: ws) (simp_all add: setDependency_dependencies)

lemma foldl_setDependency_eq:
  "foldl setDependency ws (atTypesDependenciesOf h src) =
     ws\<lparr>manifest := (\<lambda>ty. case manifest src ty h of
                               None \<Rightarrow> manifest ws ty
                             | Some dep \<Rightarrow> (manifest ws ty)(identHash dep \<mapsto> dep))\<rparr>"
  by (rule workspace.equality)
    (simp_all add: foldl_setDependency_manifest foldl_setDependency_cwd
      foldl_setDependency_dependencies)

subsection \<open>Propagation and the fresh companion\<close>

lemma demo_resolve_foo2: "resolveCompanion demo_env foo2 = ([], Inr (Some typesFoo2))"
  by (simp add: resolveCompanion_cases demo_env_def foo2_def typesFoo2_def getTypesName_def
      show_nat_digit digit_def)

lemmas demo_ws_defs =
  wsNew_def wsPlain_def wsTyped_def wsPeer_def fooOnly_def foo2_def typesFoo2_def
  typesFoo15_def typesFoo1_def

lemma demo_wsNew_no_companion: "\<not> holdsCompanion (identHash typesFoo2) wsNew"
  by (simp add: holdsCompanion_def allDependencies_def identHash_def demo_ws_defs)

lemma demo_wsPlain_no_companion: "\<not> holdsCompanion (identHash typesFoo2) wsPlain"
  by (simp add: holdsCompanion_def allDependencies_def identHash_def demo_ws_defs)

lemma demo_wsTyped_qualifies:
  "dependsOnOriginal foo2 wsTyped \<and> holdsCompanion (identHash typesFoo2) wsTyped"
  by (simp add: dependsOnOriginal_def holdsCompanion_def allDependencies_def identHash_def
      descriptorHash_def demo_ws_defs)

text \<open>
  Claim C4. When the addition hook has formed the companion descriptor and no workspace of the
  project both depends on the original by the identical descriptor hash and holds a companion
  entry, the hook probes the resolver for the companion descriptor (the last query it makes).
  If the probe is rejected or returns no candidate, the project is unchanged. If it returns a
  candidate, the hook returns, and in the project it leaves the development collection of the
  triggering workspace is the old one with the companion descriptor set under its identity
  hash; every other collection of that workspace, its directory and its dependency list, and
  every other workspace are as before.
\<close>

theorem fresh_companion_needs_probe:
  assumes "resolveCompanion e d = (asked, Inr (Some a))"
    and "\<forall>ws\<in>set (workspaces p). \<not> (dependsOnOriginal d ws \<and> holdsCompanion (identHash a) ws)"
    and "w < length (workspaces p)"
  shows "queries (afterWorkspaceDependencyAddition e p w d) = asked @ [a]
     \<and> (getCandidates e a = None \<or> getCandidates e a = Some [] \<longrightarrow>
          outcome (afterWorkspaceDependencyAddition e p w d) = Inr p)
     \<and> (\<forall>c cs. getCandidates e a = Some (c # cs) \<longrightarrow>
          outcome (afterWorkspaceDependencyAddition e p w d) =
            Inr (projectAfter p (afterWorkspaceDependencyAddition e p w d))
          \<and> manifest (workspaces (projectAfter p (afterWorkspaceDependencyAddition e p w d)) ! w)
               DevDependencies =
             (manifest (workspaces p ! w) DevDependencies)(identHash a \<mapsto> a)
          \<and> (\<forall>ty. ty \<noteq> DevDependencies \<longrightarrow>
                manifest (workspaces (projectAfter p (afterWorkspaceDependencyAddition e p w d)) ! w) ty =
                manifest (workspaces p ! w) ty)
          \<and> workspaces (projectAfter p (afterWorkspaceDependencyAddition e p w d)) =
             (workspaces p)[w := (workspaces p ! w)\<lparr>manifest := (manifest (workspaces p ! w))
                (DevDependencies :=
                   (manifest (workspaces p ! w) DevDependencies)(identHash a \<mapsto> a))\<rparr>])"
proof -
  have run: "afterWorkspaceDependencyAddition e p w d =
      \<lparr>queries = asked @ [a],
       outcome = (case getCandidates e a of
                    Some (c # cs) \<Rightarrow>
                      Inr (updateWorkspace p w (\<lambda>ws. setDependency ws (DEVELOPMENT, a)))
                  | _ \<Rightarrow> Inr p)\<rparr>"
    using assms(1,2) by (simp add: hook_reconcile reconcile_probes)
  have q: "queries (afterWorkspaceDependencyAddition e p w d) = asked @ [a]"
    by (simp add: run)
  have fail: "getCandidates e a = None \<or> getCandidates e a = Some [] \<longrightarrow>
          outcome (afterWorkspaceDependencyAddition e p w d) = Inr p"
    by (auto simp: run)
  have ok: "outcome (afterWorkspaceDependencyAddition e p w d) =
            Inr (projectAfter p (afterWorkspaceDependencyAddition e p w d))
          \<and> manifest (workspaces (projectAfter p (afterWorkspaceDependencyAddition e p w d)) ! w)
               DevDependencies =
             (manifest (workspaces p ! w) DevDependencies)(identHash a \<mapsto> a)
          \<and> (\<forall>ty. ty \<noteq> DevDependencies \<longrightarrow>
                manifest (workspaces (projectAfter p (afterWorkspaceDependencyAddition e p w d)) ! w) ty =
                manifest (workspaces p ! w) ty)
          \<and> workspaces (projectAfter p (afterWorkspaceDependencyAddition e p w d)) =
             (workspaces p)[w := (workspaces p ! w)\<lparr>manifest := (manifest (workspaces p ! w))
                (DevDependencies :=
                   (manifest (workspaces p ! w) DevDependencies)(identHash a \<mapsto> a))\<rparr>]"
    if "getCandidates e a = Some (c # cs)" for c cs
    using that assms(3)
    by (simp add: run projectAfter_def updateWorkspace_def setDependency_def DEVELOPMENT_def)
  from q fail ok show ?thesis by blast
qed

theorem fresh_companion_needs_probe_witness:
  "resolveCompanion demo_env foo2 = ([], Inr (Some typesFoo2))
   \<and> workspaces freshProject = [wsNew, wsPlain]
   \<and> \<not> holdsCompanion (identHash typesFoo2) wsNew
   \<and> \<not> holdsCompanion (identHash typesFoo2) wsPlain
   \<and> getCandidates demo_env typesFoo2 = Some [\<lparr>reference = ''npm:2.0.5''\<rparr>]
   \<and> queries (afterWorkspaceDependencyAddition demo_env freshProject 0 foo2) = [typesFoo2]
   \<and> manifest wsNew DevDependencies (Some ''types'', ''foo'') = None
   \<and> manifest (workspaces (projectAfter freshProject
         (afterWorkspaceDependencyAddition demo_env freshProject 0 foo2)) ! 0)
       DevDependencies (Some ''types'', ''foo'') = Some typesFoo2
   \<and> manifest (workspaces (projectAfter freshProject
         (afterWorkspaceDependencyAddition demo_env freshProject 0 foo2)) ! 0)
       Dependencies (Some ''types'', ''foo'') = None
   \<and> manifest (workspaces (projectAfter freshProject
         (afterWorkspaceDependencyAddition demo_env freshProject 0 foo2)) ! 0)
       PeerDependencies (Some ''types'', ''foo'') = None
   \<and> workspaces (projectAfter freshProject
         (afterWorkspaceDependencyAddition demo_env freshProject 0 foo2)) ! 1 = wsPlain"
proof -
  have h: "\<forall>ws\<in>set (workspaces freshProject).
         \<not> (dependsOnOriginal foo2 ws \<and> holdsCompanion (identHash typesFoo2) ws)"
    by (simp add: freshProject_def demo_wsNew_no_companion demo_wsPlain_no_companion)
  have l: "0 < length (workspaces freshProject)" by (simp add: freshProject_def)
  have c: "getCandidates demo_env typesFoo2 = Some [\<lparr>reference = ''npm:2.0.5''\<rparr>]"
    by (simp add: demo_env_def typesFoo2_def)
  have i: "identHash typesFoo2 = (Some ''types'', ''foo'')"
    by (simp add: identHash_def typesFoo2_def)
  have w0: "workspaces freshProject ! 0 = wsNew" by (simp add: freshProject_def)
  have f: "workspaces freshProject = [wsNew, wsPlain]" by (simp add: freshProject_def)
  have m: "manifest wsNew DevDependencies (Some ''types'', ''foo'') = None"
      "manifest wsNew Dependencies (Some ''types'', ''foo'') = None"
      "manifest wsNew PeerDependencies (Some ''types'', ''foo'') = None"
    by (simp_all add: wsNew_def fooOnly_def)
  let ?after = "workspaces (projectAfter freshProject
         (afterWorkspaceDependencyAddition demo_env freshProject 0 foo2))"
  note t = fresh_companion_needs_probe [OF demo_resolve_foo2 h l]
  from t have q: "queries (afterWorkspaceDependencyAddition demo_env freshProject 0 foo2) = [typesFoo2]"
    by simp
  from t c have "manifest (?after ! 0) DevDependencies =
       (manifest (workspaces freshProject ! 0) DevDependencies)(identHash typesFoo2 \<mapsto> typesFoo2)"
    by blast
  then have dev: "manifest (?after ! 0) DevDependencies (Some ''types'', ''foo'') = Some typesFoo2"
    by (simp add: i)
  from t c have "\<forall>ty. ty \<noteq> DevDependencies \<longrightarrow>
       manifest (?after ! 0) ty = manifest (workspaces freshProject ! 0) ty"
    by blast
  then have oth: "manifest (?after ! 0) Dependencies = manifest wsNew Dependencies"
      "manifest (?after ! 0) PeerDependencies = manifest wsNew PeerDependencies"
    by (simp_all add: w0)
  from t c have "?after = (workspaces freshProject)[0 := (workspaces freshProject ! 0)\<lparr>manifest :=
       (manifest (workspaces freshProject ! 0))(DevDependencies :=
          (manifest (workspaces freshProject ! 0) DevDependencies)(identHash typesFoo2 \<mapsto> typesFoo2))\<rparr>]"
    by blast
  then have lst: "?after ! 1 = wsPlain"
    by (simp add: f)
  show ?thesis
    using demo_resolve_foo2 f demo_wsNew_no_companion demo_wsPlain_no_companion c q m lst dev
    by (simp add: oth)
qed

text \<open>
  Claim C10. The propagation scan copies from exactly one workspace, the first in the order of
  \<open>project.workspaces\<close> that both depends on the original by the identical descriptor hash
  and holds a companion entry. Workspaces before it that fail either condition (so also those
  that match the hash and hold no companion entry) are skipped, and the result does not depend
  on the workspaces after it: the hook returns, and in the project it leaves each collection
  of the triggering workspace is the old one with the companion entry that this one workspace
  holds under the same kind set in it, or the old one unchanged when that workspace holds none
  under the kind; every other workspace is as before.
\<close>

theorem propagation_source_is_first_match:
  assumes "resolveCompanion e d = (asked, Inr (Some a))"
    and "workspaces p = pre @ src # post"
    and "\<forall>ws\<in>set pre. \<not> (dependsOnOriginal d ws \<and> holdsCompanion (identHash a) ws)"
    and "dependsOnOriginal d src" and "holdsCompanion (identHash a) src"
    and "w < length (workspaces p)"
  shows "outcome (afterWorkspaceDependencyAddition e p w d) =
           Inr (projectAfter p (afterWorkspaceDependencyAddition e p w d))
     \<and> manifest (workspaces (projectAfter p (afterWorkspaceDependencyAddition e p w d)) ! w) =
         (\<lambda>ty. case manifest src ty (identHash a) of
                  None \<Rightarrow> manifest (workspaces p ! w) ty
                | Some dep \<Rightarrow> (manifest (workspaces p ! w) ty)(identHash dep \<mapsto> dep))
     \<and> workspaces (projectAfter p (afterWorkspaceDependencyAddition e p w d)) =
         (workspaces p)[w := (workspaces p ! w)\<lparr>manifest :=
            (\<lambda>ty. case manifest src ty (identHash a) of
                     None \<Rightarrow> manifest (workspaces p ! w) ty
                   | Some dep \<Rightarrow> (manifest (workspaces p ! w) ty)(identHash dep \<mapsto> dep))\<rparr>]"
proof -
  have run: "afterWorkspaceDependencyAddition e p w d =
      \<lparr>queries = asked,
       outcome = Inr (updateWorkspace p w
         (\<lambda>ws. foldl setDependency ws (atTypesDependenciesOf (identHash a) src)))\<rparr>"
    using assms(1-5) by (simp add: hook_reconcile reconcile_propagates)
  show ?thesis
    using assms(6)
    by (simp add: run projectAfter_def updateWorkspace_def foldl_setDependency_eq)
qed

theorem propagation_source_is_first_match_witness:
  "resolveCompanion demo_env foo2 = ([], Inr (Some typesFoo2))
   \<and> workspaces siblingProject = [wsNew, wsPlain] @ wsTyped # [wsPeer]
   \<and> \<not> holdsCompanion (identHash typesFoo2) wsNew
   \<and> \<not> holdsCompanion (identHash typesFoo2) wsPlain
   \<and> dependsOnOriginal foo2 wsTyped \<and> holdsCompanion (identHash typesFoo2) wsTyped
   \<and> dependsOnOriginal foo2 wsPeer \<and> holdsCompanion (identHash typesFoo2) wsPeer
   \<and> manifest (workspaces (projectAfter siblingProject
         (afterWorkspaceDependencyAddition demo_env siblingProject 0 foo2)) ! 0)
       DevDependencies (Some ''types'', ''foo'') = Some typesFoo15
   \<and> manifest (workspaces (projectAfter siblingProject
         (afterWorkspaceDependencyAddition demo_env siblingProject 0 foo2)) ! 0)
       PeerDependencies (Some ''types'', ''foo'') = None
   \<and> manifest (workspaces (projectAfter siblingProject
         (afterWorkspaceDependencyAddition demo_env siblingProject 0 foo2)) ! 0)
       Dependencies (None, ''foo'') = Some foo2
   \<and> workspaces (projectAfter siblingProject
         (afterWorkspaceDependencyAddition demo_env siblingProject 0 foo2)) ! 3 = wsPeer"
proof -
  have s: "workspaces siblingProject = [wsNew, wsPlain] @ wsTyped # [wsPeer]"
    by (simp add: siblingProject_def)
  have h: "\<forall>ws\<in>set [wsNew, wsPlain].
         \<not> (dependsOnOriginal foo2 ws \<and> holdsCompanion (identHash typesFoo2) ws)"
    by (simp add: demo_wsNew_no_companion demo_wsPlain_no_companion)
  have q1: "dependsOnOriginal foo2 wsTyped" and q2: "holdsCompanion (identHash typesFoo2) wsTyped"
    using demo_wsTyped_qualifies by simp_all
  have q3: "dependsOnOriginal foo2 wsPeer \<and> holdsCompanion (identHash typesFoo2) wsPeer"
    by (simp add: dependsOnOriginal_def holdsCompanion_def allDependencies_def identHash_def
        descriptorHash_def demo_ws_defs)
  have l: "0 < length (workspaces siblingProject)" by (simp add: siblingProject_def)
  have w0: "workspaces siblingProject ! 0 = wsNew" by (simp add: siblingProject_def)
  note t = propagation_source_is_first_match [OF demo_resolve_foo2 s h q1 q2 l]
  from t have "manifest (workspaces (projectAfter siblingProject
         (afterWorkspaceDependencyAddition demo_env siblingProject 0 foo2)) ! 0) =
       (\<lambda>ty. case manifest wsTyped ty (identHash typesFoo2) of
                None \<Rightarrow> manifest (workspaces siblingProject ! 0) ty
              | Some dep \<Rightarrow> (manifest (workspaces siblingProject ! 0) ty)(identHash dep \<mapsto> dep))"
    by blast
  then have man: "manifest (workspaces (projectAfter siblingProject
         (afterWorkspaceDependencyAddition demo_env siblingProject 0 foo2)) ! 0) =
       (\<lambda>ty. case manifest wsTyped ty (identHash typesFoo2) of
                None \<Rightarrow> manifest wsNew ty
              | Some dep \<Rightarrow> (manifest wsNew ty)(identHash dep \<mapsto> dep))"
    unfolding w0 .
  from t have "workspaces (projectAfter siblingProject
         (afterWorkspaceDependencyAddition demo_env siblingProject 0 foo2)) =
       (workspaces siblingProject)[0 := (workspaces siblingProject ! 0)\<lparr>manifest :=
          (\<lambda>ty. case manifest wsTyped ty (identHash typesFoo2) of
                   None \<Rightarrow> manifest (workspaces siblingProject ! 0) ty
                 | Some dep \<Rightarrow> (manifest (workspaces siblingProject ! 0) ty)(identHash dep \<mapsto> dep))\<rparr>]"
    by blast
  then have lst: "workspaces (projectAfter siblingProject
         (afterWorkspaceDependencyAddition demo_env siblingProject 0 foo2)) ! 3 = wsPeer"
    by (simp add: siblingProject_def)
  have e: "(\<lambda>ty. case manifest wsTyped ty (identHash typesFoo2) of
                None \<Rightarrow> manifest wsNew ty
              | Some dep \<Rightarrow> (manifest wsNew ty)(identHash dep \<mapsto> dep)) DevDependencies
             (Some ''types'', ''foo'') = Some typesFoo15"
      "(\<lambda>ty. case manifest wsTyped ty (identHash typesFoo2) of
                None \<Rightarrow> manifest wsNew ty
              | Some dep \<Rightarrow> (manifest wsNew ty)(identHash dep \<mapsto> dep)) PeerDependencies
             (Some ''types'', ''foo'') = None"
      "(\<lambda>ty. case manifest wsTyped ty (identHash typesFoo2) of
                None \<Rightarrow> manifest wsNew ty
              | Some dep \<Rightarrow> (manifest wsNew ty)(identHash dep \<mapsto> dep)) Dependencies
             (None, ''foo'') = Some foo2"
    by (simp_all add: identHash_def demo_ws_defs)
  show ?thesis
    using s q1 q2 q3 demo_resolve_foo2 demo_wsNew_no_companion demo_wsPlain_no_companion lst e
    unfolding man by simp
qed

text \<open>
  Claim C3. When the addition hook has formed the companion descriptor and some workspace of the
  project depends on the original by the identical descriptor hash (in its regular or
  development collection) and holds a companion entry, the hook returns without error, and the
  manifest of the triggering workspace is its old manifest with the companion entries of such a
  workspace set in it, each under the kind and with the range the sibling has, whatever the
  freshly computed range is. No further resolver query is made: the queries are those of the
  selector choice, and the fresh companion descriptor is not among them.
\<close>

theorem sibling_entry_is_propagated:
  assumes "resolveCompanion e d = (asked, Inr (Some a))"
    and "\<exists>ws\<in>set (workspaces p). dependsOnOriginal d ws \<and> holdsCompanion (identHash a) ws"
    and "w < length (workspaces p)"
  shows "(\<exists>src\<in>set (workspaces p).
            dependsOnOriginal d src \<and> holdsCompanion (identHash a) src
            \<and> manifest (workspaces (projectAfter p (afterWorkspaceDependencyAddition e p w d)) ! w) =
                (\<lambda>ty. case manifest src ty (identHash a) of
                         None \<Rightarrow> manifest (workspaces p ! w) ty
                       | Some dep \<Rightarrow> (manifest (workspaces p ! w) ty)(identHash dep \<mapsto> dep)))
     \<and> (\<exists>p'. outcome (afterWorkspaceDependencyAddition e p w d) = Inr p')
     \<and> queries (afterWorkspaceDependencyAddition e p w d) = asked
     \<and> a \<notin> set (queries (afterWorkspaceDependencyAddition e p w d))"
proof -
  from first_qualifying[OF assms(2)] obtain pre src post
    where split: "workspaces p = pre @ src # post"
      and pre: "\<forall>ws\<in>set pre. \<not> (dependsOnOriginal d ws \<and> holdsCompanion (identHash a) ws)"
      and src: "dependsOnOriginal d src" "holdsCompanion (identHash a) src"
    by blast
  have run: "afterWorkspaceDependencyAddition e p w d =
      \<lparr>queries = asked,
       outcome = Inr (updateWorkspace p w
         (\<lambda>ws. foldl setDependency ws (atTypesDependenciesOf (identHash a) src)))\<rparr>"
    using assms(1) split pre src by (simp add: hook_reconcile reconcile_propagates)
  have ok: "\<exists>p'. outcome (afterWorkspaceDependencyAddition e p w d) = Inr p'"
    by (simp add: run)
  have q: "queries (afterWorkspaceDependencyAddition e p w d) = asked"
    by (simp add: run)
  have "a \<noteq> d" using resolveCompanion_Some(1,2)[OF assms(1)] by auto
  then have nq: "a \<notin> set (queries (afterWorkspaceDependencyAddition e p w d))"
    using resolveCompanion_Some(4)[OF assms(1)] q by auto
  have mem: "src \<in> set (workspaces p)" by (simp add: split)
  have after: "workspaces (projectAfter p (afterWorkspaceDependencyAddition e p w d)) ! w =
      foldl setDependency (workspaces p ! w) (atTypesDependenciesOf (identHash a) src)"
    using assms(3) by (simp add: run projectAfter_def updateWorkspace_def)
  have "\<exists>src\<in>set (workspaces p).
            dependsOnOriginal d src \<and> holdsCompanion (identHash a) src
            \<and> manifest (workspaces (projectAfter p (afterWorkspaceDependencyAddition e p w d)) ! w) =
                (\<lambda>ty. case manifest src ty (identHash a) of
                         None \<Rightarrow> manifest (workspaces p ! w) ty
                       | Some dep \<Rightarrow> (manifest (workspaces p ! w) ty)(identHash dep \<mapsto> dep))"
    using mem src by (intro bexI[of _ src]) (simp_all add: after foldl_setDependency_manifest)
  with ok q nq show ?thesis by simp
qed

theorem sibling_entry_is_propagated_witness:
  "resolveCompanion demo_env foo2 = ([], Inr (Some typesFoo2))
   \<and> (\<exists>ws\<in>set (workspaces pairProject).
         dependsOnOriginal foo2 ws \<and> holdsCompanion (identHash typesFoo2) ws)
   \<and> 0 < length (workspaces pairProject)
   \<and> manifest (workspaces (projectAfter pairProject
         (afterWorkspaceDependencyAddition demo_env pairProject 0 foo2)) ! 0)
       DevDependencies (Some ''types'', ''foo'') = Some typesFoo15
   \<and> queries (afterWorkspaceDependencyAddition demo_env pairProject 0 foo2) = []"
proof -
  have h: "\<exists>ws\<in>set (workspaces pairProject).
         dependsOnOriginal foo2 ws \<and> holdsCompanion (identHash typesFoo2) ws"
    using demo_wsTyped_qualifies by (simp add: pairProject_def)
  have l: "0 < length (workspaces pairProject)" by (simp add: pairProject_def)
  note t = sibling_entry_is_propagated [OF demo_resolve_foo2 h l]
  from t obtain src where src: "src \<in> set (workspaces pairProject)"
      "holdsCompanion (identHash typesFoo2) src"
      and eq: "manifest (workspaces (projectAfter pairProject
                 (afterWorkspaceDependencyAddition demo_env pairProject 0 foo2)) ! 0) =
               (\<lambda>ty. case manifest src ty (identHash typesFoo2) of
                        None \<Rightarrow> manifest (workspaces pairProject ! 0) ty
                      | Some dep \<Rightarrow> (manifest (workspaces pairProject ! 0) ty)(identHash dep \<mapsto> dep))"
    by blast
  from src have "src = wsTyped"
    using demo_wsNew_no_companion by (auto simp: pairProject_def)
  then have "manifest (workspaces (projectAfter pairProject
         (afterWorkspaceDependencyAddition demo_env pairProject 0 foo2)) ! 0)
       DevDependencies (Some ''types'', ''foo'') = Some typesFoo15"
    unfolding eq by (simp add: identHash_def demo_ws_defs)
  with demo_resolve_foo2 h l t show ?thesis by simp
qed

subsection \<open>A second run of the addition hook\<close>

lemma mapAndFind_Some_index:
  "mapAndFind xs cb = Some v \<Longrightarrow>
     \<exists>k<length xs. cb (xs ! k) = Some v \<and> (\<forall>j<k. cb (xs ! j) = None)"
proof -
  assume "mapAndFind xs cb = Some v"
  from mapAndFind_Some_split[OF this] obtain pre x post
    where xs: "xs = pre @ x # post" and pre: "\<forall>y\<in>set pre. cb y = None" and x: "cb x = Some v"
    by blast
  have "length pre < length xs" by (simp add: xs)
  moreover have "cb (xs ! length pre) = Some v" by (simp add: xs x)
  moreover have "\<forall>j<length pre. cb (xs ! j) = None"
    using pre by (simp add: xs nth_append)
  ultimately show ?thesis by blast
qed

lemma mapAndFind_None_index:
  "mapAndFind xs cb = None \<longleftrightarrow> (\<forall>k<length xs. cb (xs ! k) = None)"
  by (simp add: mapAndFind_None_iff all_set_conv_all_nth)

lemma keyedByIdent_iff:
  "keyedByIdent ws \<longleftrightarrow> (\<forall>ty h dep. manifest ws ty h = Some dep \<longrightarrow> identHash dep = h)"
  by (simp add: keyedByIdent_def list_all_iff set_allDependencies)

lemma keyedByIdent_setDependency:
  "keyedByIdent ws \<Longrightarrow> keyedByIdent (setDependency ws td)"
  by (auto simp: keyedByIdent_iff setDependency_def split: if_splits)

lemma keyedByIdent_foldl:
  "keyedByIdent ws \<Longrightarrow> keyedByIdent (foldl setDependency ws tds)"
  by (induction tds arbitrary: ws) (simp_all add: keyedByIdent_setDependency)

lemma copy_own_entries:
  assumes "keyedByIdent ws"
  shows "foldl setDependency ws (atTypesDependenciesOf h ws) = ws"
proof -
  have "(case manifest ws ty h of None \<Rightarrow> manifest ws ty
         | Some dep \<Rightarrow> (manifest ws ty)(identHash dep \<mapsto> dep)) = manifest ws ty" for ty
  proof (cases "manifest ws ty h")
    case None
    then show ?thesis by simp
  next
    case (Some dep)
    have "identHash dep = h"
      using assms Some unfolding keyedByIdent_iff by blast
    with Some show ?thesis by (simp add: fun_upd_idem)
  qed
  then show ?thesis by (simp add: foldl_setDependency_eq)
qed

lemma copy_entries_again:
  "foldl setDependency (foldl setDependency ws (atTypesDependenciesOf h src))
     (atTypesDependenciesOf h src) = foldl setDependency ws (atTypesDependenciesOf h src)"
proof -
  have "manifest (foldl setDependency (foldl setDependency ws (atTypesDependenciesOf h src))
     (atTypesDependenciesOf h src)) ty
      = manifest (foldl setDependency ws (atTypesDependenciesOf h src)) ty" for ty
    by (simp add: foldl_setDependency_manifest split: option.splits)
  then have "manifest (foldl setDependency (foldl setDependency ws (atTypesDependenciesOf h src))
     (atTypesDependenciesOf h src)) = manifest (foldl setDependency ws (atTypesDependenciesOf h src))"
    by (rule ext)
  then show ?thesis
    by (intro workspace.equality)
      (simp_all add: foldl_setDependency_cwd foldl_setDependency_dependencies)
qed

lemma setDependency_again: "setDependency (setDependency ws td) td = setDependency ws td"
  by (simp add: setDependency_def)

lemma updateWorkspace_same:
  "f (workspaces p ! w) = workspaces p ! w \<Longrightarrow> updateWorkspace p w f = p"
  by (simp add: updateWorkspace_def)

lemma updateWorkspace_beyond:
  "\<not> w < length (workspaces p) \<Longrightarrow> updateWorkspace p w f = p"
  by (simp add: updateWorkspace_def list_update_beyond not_less)

lemma updateWorkspace_nth:
  "w < length (workspaces p) \<Longrightarrow> workspaces (updateWorkspace p w f) ! w = f (workspaces p ! w)"
  by (simp add: updateWorkspace_def)

lemma updateWorkspace_other:
  "j \<noteq> w \<Longrightarrow> workspaces (updateWorkspace p w f) ! j = workspaces p ! j"
  by (simp add: updateWorkspace_def)

lemma updateWorkspace_length:
  "length (workspaces (updateWorkspace p w f)) = length (workspaces p)"
  by (simp add: updateWorkspace_def)

lemma reconcile_settled:
  assumes self: "\<And>xs. scanWorkspace d a (workspaces q ! w) = Some xs \<Longrightarrow>
                   foldl setDependency (workspaces q ! w) xs = workspaces q ! w"
    and other: "\<And>j xs. j < length (workspaces q) \<Longrightarrow> j \<noteq> w \<Longrightarrow>
                   \<forall>i<j. scanWorkspace d a (workspaces q ! i) = None \<Longrightarrow>
                   scanWorkspace d a (workspaces q ! j) = Some xs \<Longrightarrow>
                   foldl setDependency (workspaces q ! w) xs = workspaces q ! w"
    and probe: "\<forall>k<length (workspaces q). scanWorkspace d a (workspaces q ! k) = None \<Longrightarrow>
                   setDependency (workspaces q ! w) (DEVELOPMENT, a) = workspaces q ! w"
  shows "outcome (reconcileCompanion e q w d asked a) = Inr q"
proof (cases "mapAndFind (workspaces q) (scanWorkspace d a)")
  case None
  then have "setDependency (workspaces q ! w) (DEVELOPMENT, a) = workspaces q ! w"
    using probe by (simp add: mapAndFind_None_index)
  then show ?thesis
    using None
    by (simp add: reconcileCompanion_def updateWorkspace_same split: option.splits list.splits)
next
  case (Some xs)
  from mapAndFind_Some_index[OF this] obtain j
    where j: "j < length (workspaces q)" "scanWorkspace d a (workspaces q ! j) = Some xs"
      "\<forall>i<j. scanWorkspace d a (workspaces q ! i) = None"
    by blast
  have "foldl setDependency (workspaces q ! w) xs = workspaces q ! w"
  proof (cases "j = w")
    case True
    with j(2) show ?thesis by (simp add: self)
  next
    case False
    with j show ?thesis by (simp add: other)
  qed
  then show ?thesis
    using Some by (simp add: reconcileCompanion_def updateWorkspace_same)
qed

lemma reconcile_idem:
  assumes keyed: "\<forall>ws\<in>set (workspaces p). keyedByIdent ws"
    and run: "outcome (reconcileCompanion e p w d asked a) = Inr p1"
  shows "outcome (reconcileCompanion e p1 w d asked' a) = Inr p1"
proof (cases "w < length (workspaces p)")
  case False
  have same: "outcome (reconcileCompanion e p w d xs a) = Inr p" for xs
    by (simp add: reconcileCompanion_def updateWorkspace_beyond[OF False]
        split: option.splits list.splits)
  from run same have "p1 = p" by simp
  then show ?thesis by (simp add: same)
next
  case inrange: True
  then have keyedW: "keyedByIdent (workspaces p ! w)" using keyed by simp
  show ?thesis
  proof (cases "mapAndFind (workspaces p) (scanWorkspace d a)")
    case None
    then have none: "\<forall>k<length (workspaces p). scanWorkspace d a (workspaces p ! k) = None"
      by (simp add: mapAndFind_None_index)
    show ?thesis
    proof (cases "\<exists>c cs. getCandidates e a = Some (c # cs)")
      case False
      then have "outcome (reconcileCompanion e p w d xs a) = Inr p" for xs
        using None by (auto simp: reconcileCompanion_def split: option.splits list.splits)
      with run show ?thesis by simp
    next
      case True
      then have p1: "p1 = updateWorkspace p w (\<lambda>ws. setDependency ws (DEVELOPMENT, a))"
        using None run by (auto simp: reconcileCompanion_def)
      have W1: "workspaces p1 ! w = setDependency (workspaces p ! w) (DEVELOPMENT, a)"
        using inrange by (simp add: p1 updateWorkspace_nth)
      have len: "length (workspaces p1) = length (workspaces p)"
        by (simp add: p1 updateWorkspace_length)
      show ?thesis
      proof (rule reconcile_settled)
        fix xs assume "scanWorkspace d a (workspaces p1 ! w) = Some xs"
        then have "xs = atTypesDependenciesOf (identHash a) (workspaces p1 ! w)"
          by (rule scanWorkspace_Some)
        moreover have "keyedByIdent (workspaces p1 ! w)"
          using keyedW by (simp add: W1 keyedByIdent_setDependency)
        ultimately show "foldl setDependency (workspaces p1 ! w) xs = workspaces p1 ! w"
          by (simp add: copy_own_entries)
      next
        fix j xs assume "j < length (workspaces p1)" "j \<noteq> w"
          "scanWorkspace d a (workspaces p1 ! j) = Some xs"
        then have False using none by (simp add: p1 updateWorkspace_other len[unfolded p1])
        then show "foldl setDependency (workspaces p1 ! w) xs = workspaces p1 ! w" ..
      next
        show "setDependency (workspaces p1 ! w) (DEVELOPMENT, a) = workspaces p1 ! w"
          by (simp add: W1 setDependency_again)
      qed
    qed
  next
    case (Some sugg)
    from mapAndFind_Some_index[OF this] obtain k
      where k: "k < length (workspaces p)" "scanWorkspace d a (workspaces p ! k) = Some sugg"
        "\<forall>i<k. scanWorkspace d a (workspaces p ! i) = None"
      by blast
    have sugg: "sugg = atTypesDependenciesOf (identHash a) (workspaces p ! k)"
      using k(2) by (rule scanWorkspace_Some)
    have p1: "p1 = updateWorkspace p w (\<lambda>ws. foldl setDependency ws sugg)"
      using Some run by (simp add: reconcileCompanion_def)
    have W1: "workspaces p1 ! w = foldl setDependency (workspaces p ! w) sugg"
      using inrange by (simp add: p1 updateWorkspace_nth)
    have len: "length (workspaces p1) = length (workspaces p)"
      by (simp add: p1 updateWorkspace_length)
    have keyedW1: "keyedByIdent (workspaces p1 ! w)"
      using keyedW by (simp add: W1 keyedByIdent_foldl)
    have atk: "scanWorkspace d a (workspaces p1 ! k) = Some sugg"
    proof (cases "k = w")
      case True
      then have "workspaces p1 ! k = workspaces p ! k"
        using keyedW by (simp add: W1 sugg copy_own_entries)
      with k(2) show ?thesis by simp
    next
      case False
      with k(2) show ?thesis by (simp add: p1 updateWorkspace_other)
    qed
    show ?thesis
    proof (rule reconcile_settled)
      fix xs assume "scanWorkspace d a (workspaces p1 ! w) = Some xs"
      then have "xs = atTypesDependenciesOf (identHash a) (workspaces p1 ! w)"
        by (rule scanWorkspace_Some)
      then show "foldl setDependency (workspaces p1 ! w) xs = workspaces p1 ! w"
        using keyedW1 by (simp add: copy_own_entries)
    next
      fix j xs assume j: "j < length (workspaces p1)" "j \<noteq> w"
        "\<forall>i<j. scanWorkspace d a (workspaces p1 ! i) = None"
        "scanWorkspace d a (workspaces p1 ! j) = Some xs"
      have old: "scanWorkspace d a (workspaces p ! j) = Some xs"
        using j(2,4) by (simp add: p1 updateWorkspace_other)
      have "\<not> k < j" using j(3) atk by auto
      moreover have "\<not> j < k" using k(3) old by auto
      ultimately have "j = k" by simp
      with old k(2) have "xs = sugg" by simp
      then show "foldl setDependency (workspaces p1 ! w) xs = workspaces p1 ! w"
        by (simp add: W1 sugg copy_entries_again)
    next
      assume "\<forall>i<length (workspaces p1). scanWorkspace d a (workspaces p1 ! i) = None"
      with atk k(1) len have False by auto
      then show "setDependency (workspaces p1 ! w) (DEVELOPMENT, a) = workspaces p1 ! w" ..
    qed
  qed
qed

lemma reconcile_returns: "\<exists>p1. outcome (reconcileCompanion e p w d asked a) = Inr p1"
  by (simp add: reconcileCompanion_def split: option.splits list.splits)

lemma hook_idem:
  assumes keyed: "\<forall>ws\<in>set (workspaces p). keyedByIdent ws"
    and run: "outcome (afterWorkspaceDependencyAddition e p w d) = Inr p1"
  shows "outcome (afterWorkspaceDependencyAddition e p1 w d) = Inr p1"
proof -
  obtain asked r where r: "resolveCompanion e d = (asked, r)" by (cases "resolveCompanion e d")
  show ?thesis
  proof (cases r)
    case (Inl err)
    with r run show ?thesis by (simp add: afterWorkspaceDependencyAddition_def)
  next
    case (Inr oa)
    show ?thesis
    proof (cases oa)
      case None
      with r Inr run show ?thesis by (simp add: afterWorkspaceDependencyAddition_def)
    next
      case (Some a)
      with r Inr have h: "resolveCompanion e d = (asked, Inr (Some a))" by simp
      from run have "outcome (reconcileCompanion e p w d asked a) = Inr p1"
        by (simp add: hook_reconcile[OF h])
      from reconcile_idem[OF keyed this] show ?thesis
        by (simp add: hook_reconcile[OF h])
    qed
  qed
qed

lemma hook_raises_again:
  "outcome (afterWorkspaceDependencyAddition e p w d) = Inl err \<Longrightarrow>
   outcome (afterWorkspaceDependencyAddition e p' w d) = Inl err"
proof -
  assume a: "outcome (afterWorkspaceDependencyAddition e p w d) = Inl err"
  obtain asked r where r: "resolveCompanion e d = (asked, r)" by (cases "resolveCompanion e d")
  show ?thesis
  proof (cases r)
    case (Inl err')
    with r a show ?thesis by (simp add: afterWorkspaceDependencyAddition_def)
  next
    case (Inr oa)
    show ?thesis
    proof (cases oa)
      case None
      with r Inr a show ?thesis by (simp add: afterWorkspaceDependencyAddition_def)
    next
      case (Some x)
      with r Inr have h: "resolveCompanion e d = (asked, Inr (Some x))" by simp
      from reconcile_returns[of e p w d asked x] a show ?thesis
        by (auto simp: hook_reconcile[OF h])
    qed
  qed
qed

lemma demo_keyed_wsNew: "keyedByIdent wsNew"
  by (simp add: keyedByIdent_iff identHash_def demo_ws_defs)

lemma demo_keyed_wsPlain: "keyedByIdent wsPlain"
  by (simp add: keyedByIdent_iff identHash_def demo_ws_defs)

text \<open>
  Claim C9. The addition hook is idempotent. In a project whose manifests are keyed by the
  identity hash of the descriptors they hold, with the same answers of the declarations
  predicate and of the resolver on both runs: if the first run returns, a second run on the
  project it left returns and leaves that project as it is; and in every case (a run that
  raises has changed nothing) the project after the second run is the project after the first.
\<close>

theorem addition_hook_idempotent:
  assumes "\<forall>ws\<in>set (workspaces p). keyedByIdent ws"
  shows "(\<forall>p1. outcome (afterWorkspaceDependencyAddition e p w d) = Inr p1 \<longrightarrow>
            outcome (afterWorkspaceDependencyAddition e p1 w d) = Inr p1)
     \<and> projectAfter (projectAfter p (afterWorkspaceDependencyAddition e p w d))
         (afterWorkspaceDependencyAddition e
            (projectAfter p (afterWorkspaceDependencyAddition e p w d)) w d)
       = projectAfter p (afterWorkspaceDependencyAddition e p w d)"
proof (cases "outcome (afterWorkspaceDependencyAddition e p w d)")
  case (Inl err)
  then show ?thesis
    using hook_raises_again[OF Inl, of p] by (simp add: projectAfter_def)
next
  case (Inr p1)
  then show ?thesis
    using hook_idem[OF assms Inr] by (simp add: projectAfter_def)
qed

theorem addition_hook_idempotent_witness:
  "workspaces freshProject = [wsNew, wsPlain]
   \<and> keyedByIdent wsNew \<and> keyedByIdent wsPlain
   \<and> manifest (workspaces (projectAfter freshProject
         (afterWorkspaceDependencyAddition demo_env freshProject 0 foo2)) ! 0)
       DevDependencies (Some ''types'', ''foo'') = Some typesFoo2
   \<and> projectAfter (projectAfter freshProject
           (afterWorkspaceDependencyAddition demo_env freshProject 0 foo2))
         (afterWorkspaceDependencyAddition demo_env
            (projectAfter freshProject
               (afterWorkspaceDependencyAddition demo_env freshProject 0 foo2)) 0 foo2)
       = projectAfter freshProject (afterWorkspaceDependencyAddition demo_env freshProject 0 foo2)"
proof -
  have k: "\<forall>ws\<in>set (workspaces freshProject). keyedByIdent ws"
    by (simp add: freshProject_def demo_keyed_wsNew demo_keyed_wsPlain)
  have none: "\<forall>ws\<in>set (workspaces freshProject).
         \<not> (dependsOnOriginal foo2 ws \<and> holdsCompanion (identHash typesFoo2) ws)"
    by (simp add: freshProject_def demo_wsNew_no_companion demo_wsPlain_no_companion)
  have c: "getCandidates demo_env typesFoo2 = Some [\<lparr>reference = ''npm:2.0.5''\<rparr>]"
    by (simp add: demo_env_def typesFoo2_def)
  have "afterWorkspaceDependencyAddition demo_env freshProject 0 foo2 =
      \<lparr>queries = [typesFoo2],
       outcome = Inr (updateWorkspace freshProject 0
            (\<lambda>ws. setDependency ws (DEVELOPMENT, typesFoo2)))\<rparr>"
    by (simp add: hook_reconcile[OF demo_resolve_foo2] reconcile_probes[OF none] c)
  then have first: "manifest (workspaces (projectAfter freshProject
         (afterWorkspaceDependencyAddition demo_env freshProject 0 foo2)) ! 0)
       DevDependencies (Some ''types'', ''foo'') = Some typesFoo2"
    by (simp add: projectAfter_def updateWorkspace_def freshProject_def setDependency_def
        DEVELOPMENT_def identHash_def typesFoo2_def)
  show ?thesis
    using first demo_keyed_wsNew demo_keyed_wsPlain
      addition_hook_idempotent [OF k, of demo_env 0 foo2]
    by (simp add: freshProject_def)
qed

text \<open>
  Claim C2 asks that, for an original descriptor whose range is a tag, a resolver query that
  fails or returns no candidate end the addition hook silently, with no companion added. The
  query of line 46 is not enclosed in a \<^verbatim>\<open>try\<close> and line 47 reads the first candidate
  without a test of the length, unlike the probe of lines 88 to 95: on the example resolver the
  hook raises for the tag of \<open>bar\<close>, whose query is rejected, and for the tag of \<open>baz\<close>,
  whose query returns no candidate.
\<close>

theorem unresolved_tag_raises:
  "outcome (afterWorkspaceDependencyAddition demo_env freshProject 0 barLatest) = Inl ResolverFailure
   \<and> outcome (afterWorkspaceDependencyAddition demo_env freshProject 0 bazLatest) = Inl TypeError"
  by (simp add: afterWorkspaceDependencyAddition_def resolveCompanion_cases demo_env_def
      barLatest_def bazLatest_def)

subsection \<open>The synchronizer on the example inputs\<close>

lemma demo_refd_app: "referencedWorkspaces demo_sync_env syncProject 0 = [''../lib'']"
  by (simp add: referencedWorkspaces_def tryWorkspaceByDescriptor_def demo_sync_env_def
      syncProject_def wsApp_def wsLib_def List.map_filter_simps identHash_def foo2_def)

lemma demo_refd_lib: "referencedWorkspaces demo_sync_env syncProject (Suc 0) = []"
  by (simp add: referencedWorkspaces_def tryWorkspaceByDescriptor_def demo_sync_env_def
      syncProject_def wsApp_def wsLib_def List.map_filter_simps identHash_def)

lemma demo_path_app: "tsconfigPath demo_sync_env syncProject 0 = ''/repo/app/tsconfig.json''"
  by (simp add: tsconfigPath_def demo_sync_env_def syncProject_def wsApp_def)

lemma demo_path_lib: "tsconfigPath demo_sync_env syncProject (Suc 0) = ''/repo/lib/tsconfig.json''"
  by (simp add: tsconfigPath_def demo_sync_env_def syncProject_def wsLib_def)

lemma demo_writable: "writable demo_sync_env f"
  by (simp add: demo_sync_env_def)

lemma demo_indices: "[0..<length (workspaces syncProject)] = [0, Suc 0]"
  by (simp add: syncProject_def upt_rec)

lemma persisted_iff:
  "persisted se p st i \<longleftrightarrow>
     snd (updateReferences (referencedWorkspaces se p i)
            (readTsconfig (files st) (tsconfigPath se p i)))"
  by (simp add: persisted_def syncWorkspace_def Let_def)

text \<open>
  Claim C1 states that a document that exists and parses is persisted if and only if the set of
  computed reference paths differs from the set of paths in its reference list. That fails for
  the workspace \<open>lib\<close>: it has no local dependency and its document declares the empty
  list, so the two sets are equal, and the document is persisted (the list is removed).
\<close>

theorem empty_list_is_rewritten:
  "\<not> (files \<lparr>files = emptyListFs, written = []\<rparr> (tsconfigPath demo_sync_env syncProject 1) =
          Some (Json \<lparr>references = Some [], other = []\<rparr>)
        \<longrightarrow> (persisted demo_sync_env syncProject \<lparr>files = emptyListFs, written = []\<rparr> 1
              \<longleftrightarrow> set (referencedWorkspaces demo_sync_env syncProject 1)
                     \<noteq> oldReferences \<lparr>references = Some [], other = []\<rparr>))"
  by (simp add: persisted_def syncWorkspace_def demo_path_lib demo_refd_lib emptyListFs_def
      readTsconfig_def updateReferences_def oldReferences_def demo_writable Let_def)

text \<open>
  The test of lines 177 to 182 looks only for a computed path that the old list lacks: a
  document whose list holds the computed paths and a stale one more is not persisted.
\<close>

lemma stale_reference_is_kept:
  "files \<lparr>files = staleFs, written = []\<rparr> (tsconfigPath demo_sync_env syncProject 0) =
      Some (Json \<lparr>references = Some [\<lparr>path = ''../lib''\<rparr>, \<lparr>path = ''../old''\<rparr>],
                  other = [(''compilerOptions'', ''{}'')]\<rparr>)
   \<and> set (referencedWorkspaces demo_sync_env syncProject 0) = {''../lib''}
   \<and> oldReferences \<lparr>references = Some [\<lparr>path = ''../lib''\<rparr>, \<lparr>path = ''../old''\<rparr>],
                     other = [(''compilerOptions'', ''{}'')]\<rparr> = {''../lib'', ''../old''}
   \<and> \<not> persisted demo_sync_env syncProject \<lparr>files = staleFs, written = []\<rparr> 0"
  by (simp add: persisted_def syncWorkspace_def demo_path_app demo_refd_app staleFs_def
      readTsconfig_def updateReferences_def oldReferences_def demo_writable Let_def)

text \<open>
  Claim C1, amended. For a workspace whose configuration document exists and parses: when the
  workspace has no local dependency edge, the document is persisted if and only if it declares
  a reference list, of any length; when it has one, the document is persisted if some computed
  path is not among the paths of the existing list, and is not persisted if the set of computed
  paths equals the set of existing paths.
\<close>

theorem document_rewrite_condition:
  assumes "files st (tsconfigPath se p i) = Some (Json t)"
  shows "(referencedWorkspaces se p i = [] \<longrightarrow>
            (persisted se p st i \<longleftrightarrow> references t \<noteq> None))
     \<and> (referencedWorkspaces se p i \<noteq> [] \<longrightarrow>
            \<not> set (referencedWorkspaces se p i) \<subseteq> oldReferences t \<longrightarrow> persisted se p st i)
     \<and> (referencedWorkspaces se p i \<noteq> [] \<longrightarrow>
            set (referencedWorkspaces se p i) = oldReferences t \<longrightarrow> \<not> persisted se p st i)"
  using assms
  by (auto simp: persisted_iff readTsconfig_def updateReferences_def list_ex_iff)

theorem document_rewrite_condition_witness:
  "files \<lparr>files = emptyListFs, written = []\<rparr> (tsconfigPath demo_sync_env syncProject 1) =
      Some (Json \<lparr>references = Some [], other = []\<rparr>)
   \<and> referencedWorkspaces demo_sync_env syncProject 1 = []
   \<and> persisted demo_sync_env syncProject \<lparr>files = emptyListFs, written = []\<rparr> 1
   \<and> referencedWorkspaces demo_sync_env syncProject 0 = [''../lib'']
   \<and> \<not> persisted demo_sync_env syncProject
         \<lparr>files = [''/repo/app/tsconfig.json'' \<mapsto>
                     Json \<lparr>references = Some [\<lparr>path = ''../lib''\<rparr>], other = []\<rparr>],
          written = []\<rparr> 0
   \<and> persisted demo_sync_env syncProject
         \<lparr>files = [''/repo/app/tsconfig.json'' \<mapsto>
                     Json \<lparr>references = Some [\<lparr>path = ''../old''\<rparr>], other = []\<rparr>],
          written = []\<rparr> 0"
proof -
  have a: "files \<lparr>files = emptyListFs, written = []\<rparr> (tsconfigPath demo_sync_env syncProject 1) =
      Some (Json \<lparr>references = Some [], other = []\<rparr>)"
    by (simp add: demo_path_lib emptyListFs_def)
  have b: "files \<lparr>files = [''/repo/app/tsconfig.json'' \<mapsto>
                     Json \<lparr>references = Some [\<lparr>path = ''../lib''\<rparr>], other = []\<rparr>],
          written = []\<rparr> (tsconfigPath demo_sync_env syncProject 0) =
      Some (Json \<lparr>references = Some [\<lparr>path = ''../lib''\<rparr>], other = []\<rparr>)"
    by (simp add: demo_path_app)
  have c: "files \<lparr>files = [''/repo/app/tsconfig.json'' \<mapsto>
                     Json \<lparr>references = Some [\<lparr>path = ''../old''\<rparr>], other = []\<rparr>],
          written = []\<rparr> (tsconfigPath demo_sync_env syncProject 0) =
      Some (Json \<lparr>references = Some [\<lparr>path = ''../old''\<rparr>], other = []\<rparr>)"
    by (simp add: demo_path_app)
  show ?thesis
    using a document_rewrite_condition [OF a] document_rewrite_condition [OF b]
      document_rewrite_condition [OF c]
    by (simp add: demo_refd_app demo_refd_lib oldReferences_def)
qed

subsection \<open>A second pass of the synchronizer\<close>

lemma syncWorkspace_files_other:
  "syncWorkspace se p st i = Inr st' \<Longrightarrow> f \<noteq> tsconfigPath se p i \<Longrightarrow> files st' f = files st f"
  by (auto simp: syncWorkspace_def Let_def split: if_splits)

lemma updateReferences_settled:
  "snd (updateReferences refd (fst (updateReferences refd tc), False)) = False"
  by (auto simp: updateReferences_def oldReferences_def list_ex_iff)

lemma readTsconfig_Json: "fsys f = Some (Json t) \<Longrightarrow> readTsconfig fsys f = (t, False)"
  by (simp add: readTsconfig_def)

lemma readTsconfig_unchanged:
  "snd (readTsconfig fsys f) = False \<Longrightarrow> \<exists>t. fsys f = Some (Json t)"
  by (auto simp: readTsconfig_def split: option.splits file_content.splits)

lemma updateReferences_flag:
  "snd (updateReferences refd tc) = False \<Longrightarrow> snd tc = False"
  by (auto simp: updateReferences_def split: if_splits)

lemma syncWorkspace_settles:
  assumes "syncWorkspace se p st i = Inr st'"
    and "files st'' (tsconfigPath se p i) = files st' (tsconfigPath se p i)"
  shows "syncWorkspace se p st'' i = Inr st''"
proof (cases "snd (updateReferences (referencedWorkspaces se p i)
                 (readTsconfig (files st) (tsconfigPath se p i)))")
  case True
  with assms(1) have "files st' (tsconfigPath se p i) =
      Some (Json (fst (updateReferences (referencedWorkspaces se p i)
                 (readTsconfig (files st) (tsconfigPath se p i)))))"
    by (auto simp: syncWorkspace_def Let_def split: if_splits)
  with assms(2) have "readTsconfig (files st'') (tsconfigPath se p i) =
      (fst (updateReferences (referencedWorkspaces se p i)
                 (readTsconfig (files st) (tsconfigPath se p i))), False)"
    by (simp add: readTsconfig_Json)
  then show ?thesis
    by (simp add: syncWorkspace_def Let_def updateReferences_settled)
next
  case False
  with assms(1) have same: "st' = st" by (simp add: syncWorkspace_def Let_def)
  from False have "snd (readTsconfig (files st) (tsconfigPath se p i)) = False"
    using updateReferences_flag by blast
  from readTsconfig_unchanged[OF this] obtain t
    where "files st (tsconfigPath se p i) = Some (Json t)" by blast
  with assms(2) same have "readTsconfig (files st'') (tsconfigPath se p i) =
      readTsconfig (files st) (tsconfigPath se p i)"
    by (simp add: readTsconfig_Json)
  with False show ?thesis by (simp add: syncWorkspace_def Let_def)
qed

lemma syncAll_files_other:
  "syncAll se p js st = Inr st' \<Longrightarrow> f \<notin> tsconfigPath se p ` set js \<Longrightarrow> files st' f = files st f"
proof (induction js arbitrary: st)
  case Nil
  then show ?case by simp
next
  case (Cons i js)
  from Cons.prems(1) obtain st1 where st1: "syncWorkspace se p st i = Inr st1"
    and rest: "syncAll se p js st1 = Inr st'"
    by (auto split: sum.splits)
  from Cons.prems(2) have "f \<noteq> tsconfigPath se p i" "f \<notin> tsconfigPath se p ` set js" by auto
  then show ?case
    using Cons.IH[OF rest] syncWorkspace_files_other[OF st1] by simp
qed

lemma syncAll_settles:
  "syncAll se p js st = Inr st' \<Longrightarrow> distinct (map (tsconfigPath se p) js) \<Longrightarrow>
     files st'' = files st' \<Longrightarrow> i \<in> set js \<Longrightarrow> syncWorkspace se p st'' i = Inr st''"
proof (induction js arbitrary: st)
  case Nil
  then show ?case by simp
next
  case (Cons j js)
  from Cons.prems(1) obtain st1 where st1: "syncWorkspace se p st j = Inr st1"
    and rest: "syncAll se p js st1 = Inr st'"
    by (auto split: sum.splits)
  from Cons.prems(2) have fresh: "tsconfigPath se p j \<notin> tsconfigPath se p ` set js"
    and dist: "distinct (map (tsconfigPath se p) js)" by simp_all
  show ?case
  proof (cases "i \<in> set js")
    case True
    then show ?thesis using Cons.IH[OF rest dist Cons.prems(3)] by simp
  next
    case False
    with Cons.prems(4) have "i = j" by simp
    moreover have "files st'' (tsconfigPath se p j) = files st1 (tsconfigPath se p j)"
      using syncAll_files_other[OF rest fresh] Cons.prems(3) by simp
    ultimately show ?thesis using syncWorkspace_settles[OF st1] by simp
  qed
qed

lemma syncAll_settled:
  "\<forall>i\<in>set js. syncWorkspace se p st i = Inr st \<Longrightarrow> syncAll se p js st = Inr st"
  by (induction js) simp_all

text \<open>
  Claim C7. When a pass of the synchronizer over a project whose workspaces have pairwise
  different document paths has returned (every write succeeded), a second pass over the same
  project, on the file system the first pass left, writes no document and leaves the file
  system as it is.
\<close>

theorem synchronizer_second_pass_writes_nothing:
  assumes "afterAllInstalled se p fsys = Inr st1"
    and "distinct (map (tsconfigPath se p) [0..<length (workspaces p)])"
  shows "afterAllInstalled se p (files st1) = Inr \<lparr>files = files st1, written = []\<rparr>"
proof -
  have "\<forall>i\<in>set [0..<length (workspaces p)].
          syncWorkspace se p \<lparr>files = files st1, written = []\<rparr> i =
            Inr \<lparr>files = files st1, written = []\<rparr>"
    using syncAll_settles[OF assms(1)[unfolded afterAllInstalled_def] assms(2),
        of "\<lparr>files = files st1, written = []\<rparr>"]
    by simp
  then show ?thesis
    unfolding afterAllInstalled_def by (rule syncAll_settled)
qed


theorem synchronizer_second_pass_writes_nothing_witness:
  "afterAllInstalled demo_sync_env syncProject noFs =
      Inr \<lparr>files = [''/repo/app/tsconfig.json'' \<mapsto>
                       Json \<lparr>references = Some [\<lparr>path = ''../lib''\<rparr>], other = []\<rparr>,
                     ''/repo/lib/tsconfig.json'' \<mapsto> Json \<lparr>references = None, other = []\<rparr>],
           written = [''/repo/app/tsconfig.json'', ''/repo/lib/tsconfig.json'']\<rparr>
   \<and> distinct (map (tsconfigPath demo_sync_env syncProject) [0..<length (workspaces syncProject)])
   \<and> afterAllInstalled demo_sync_env syncProject
        [''/repo/app/tsconfig.json'' \<mapsto>
           Json \<lparr>references = Some [\<lparr>path = ''../lib''\<rparr>], other = []\<rparr>,
         ''/repo/lib/tsconfig.json'' \<mapsto> Json \<lparr>references = None, other = []\<rparr>] =
      Inr \<lparr>files = [''/repo/app/tsconfig.json'' \<mapsto>
                       Json \<lparr>references = Some [\<lparr>path = ''../lib''\<rparr>], other = []\<rparr>,
                     ''/repo/lib/tsconfig.json'' \<mapsto> Json \<lparr>references = None, other = []\<rparr>],
           written = []\<rparr>"
proof -
  have first: "afterAllInstalled demo_sync_env syncProject noFs =
      Inr \<lparr>files = [''/repo/app/tsconfig.json'' \<mapsto>
                       Json \<lparr>references = Some [\<lparr>path = ''../lib''\<rparr>], other = []\<rparr>,
                     ''/repo/lib/tsconfig.json'' \<mapsto> Json \<lparr>references = None, other = []\<rparr>],
           written = [''/repo/app/tsconfig.json'', ''/repo/lib/tsconfig.json'']\<rparr>"
    by (simp add: afterAllInstalled_def demo_indices syncWorkspace_def demo_path_app
        demo_path_lib demo_refd_app demo_refd_lib demo_writable readTsconfig_def
        updateReferences_def oldReferences_def noFs_def Let_def)
  have d: "distinct (map (tsconfigPath demo_sync_env syncProject)
      [0..<length (workspaces syncProject)])"
    by (simp add: demo_indices demo_path_app demo_path_lib)
  show ?thesis
    using first d synchronizer_second_pass_writes_nothing [OF first d] by simp
qed

end
